theory Spec2Isabelle
  imports Main
begin

section \<open>Data model\<close>

text \<open>
  The library talks to the GitHub REST API. The TypeScript source declares the two
  shapes it reads from the wire (\<^verbatim>\<open>GithubAsset\<close> with a \<^verbatim>\<open>download_count\<close>,
  \<^verbatim>\<open>GithubRelease\<close> with its \<^verbatim>\<open>assets\<close>) and reads one more property,
  \<^verbatim>\<open>message\<close>, from the body of an error response. A JSON object is modelled by
  the properties the program reads: \<open>message\<close> is \<open>None\<close> when the property is absent
  (JavaScript's \<^verbatim>\<open>undefined\<close>).
\<close>

subsection \<open>Numbers\<close>

text \<open>
  A download counter is a JavaScript \<^verbatim>\<open>number\<close>, an IEEE 754 double, and
  \<^verbatim>\<open>acc + asset.download_count\<close> adds doubles: the exact sum is rounded to the nearest
  double, a tie going to the even significand, and a sum too large for a double is an
  infinity. Every finite double is a whole multiple of the smallest one,
  \<open>2\<^sup>-\<^sup>1\<^sup>0\<^sup>7\<^sup>4\<close>: \<open>Finite k\<close> is the double \<open>k \<sqdot> 2\<^sup>-\<^sup>1\<^sup>0\<^sup>7\<^sup>4\<close>, so the integer \<open>n\<close> is
  \<open>Finite (n * 2 ^ scale)\<close>, and the doubles are the \<open>Finite k\<close> whose \<open>k\<close> has at most
  53 significant bits and lies below \<open>2 ^ (1024 + scale)\<close> in size. The two zeros are
  not told apart: a sum that starts from \<^verbatim>\<open>0\<close> never is the negative one.
\<close>

datatype number = Finite int | PosInfinity | NegInfinity | NaN

definition scale :: nat where
  "scale = 1074"

text \<open>The number of bits of a natural number.\<close>

fun bits :: "nat \<Rightarrow> nat" where
  "bits n = (if n = 0 then 0 else Suc (bits (n div 2)))"

declare bits.simps [simp del]

text \<open>Rounding to 53 significant bits, to the nearest, a tie to the even significand.\<close>

definition round_sig :: "nat \<Rightarrow> nat" where
  "round_sig a =
     (if bits a \<le> 53 then a
      else
        (let k = bits a - 53; q = a div 2 ^ k; r = a mod 2 ^ k; h = 2 ^ (k - 1)
         in (if h < r \<or> (r = h \<and> odd q) then q + 1 else q) * 2 ^ k))"

text \<open>The double nearest to an exact value, given in units of \<open>2\<^sup>-\<^sup>1\<^sup>0\<^sup>7\<^sup>4\<close>.\<close>

definition round_double :: "int \<Rightarrow> number" where
  "round_double x =
     (let m = round_sig (nat \<bar>x\<bar>)
      in if 2 ^ (1024 + scale) \<le> m then (if x < 0 then NegInfinity else PosInfinity)
         else Finite (if x < 0 then - int m else int m))"

text \<open>The operator \<^verbatim>\<open>+\<close> on numbers.\<close>

fun js_add :: "number \<Rightarrow> number \<Rightarrow> number" where
  "js_add NaN y = NaN"
| "js_add x NaN = NaN"
| "js_add PosInfinity NegInfinity = NaN"
| "js_add NegInfinity PosInfinity = NaN"
| "js_add PosInfinity y = PosInfinity"
| "js_add x PosInfinity = PosInfinity"
| "js_add NegInfinity y = NegInfinity"
| "js_add x NegInfinity = NegInfinity"
| "js_add (Finite a) (Finite b) = round_double (a + b)"

text \<open>
  The number that an integer literal denotes, in the source or in a JSON body: the
  nearest double.
\<close>

definition num :: "int \<Rightarrow> number" where
  "num n = round_double (n * 2 ^ scale)"

text \<open>
  A number that is a non-negative integer, as the download counters of the service
  are, and the integer it is.
\<close>

definition is_count :: "number \<Rightarrow> bool" where
  "is_count x = (case x of Finite k \<Rightarrow> 0 \<le> k \<and> k mod 2 ^ scale = 0 | _ \<Rightarrow> False)"

definition int_of :: "number \<Rightarrow> int" where
  "int_of x = (case x of Finite k \<Rightarrow> k div 2 ^ scale | _ \<Rightarrow> 0)"

subsection \<open>Releases\<close>

record GithubAsset =
  download_count :: number

record GithubRelease =
  message :: "string option"
  assets :: "GithubAsset list"

text \<open>What \<^verbatim>\<open>response.json()\<close> resolves to: a lone object or an array of objects.\<close>

datatype json_value = JObject GithubRelease | JArray "GithubRelease list"

text \<open>
  A JavaScript error value, by its \<^verbatim>\<open>name\<close> and its \<^verbatim>\<open>message\<close>. The class
  \<^verbatim>\<open>GithubError\<close> extends \<^verbatim>\<open>Error\<close>: its constructor passes the message on and sets
  the name. \<^verbatim>\<open>new Error(undefined)\<close> has the empty message.
\<close>

datatype js_error = JsError (err_name: string) (err_message: string)

definition Error :: "string option \<Rightarrow> js_error" where
  "Error m = JsError ''Error'' (case m of None \<Rightarrow> '''' | Some s \<Rightarrow> s)"

definition GithubError :: "string option \<Rightarrow> js_error" where
  "GithubError m = JsError ''GithubError'' (err_message (Error m))"

text \<open>
  Reading a property of \<^verbatim>\<open>undefined\<close> throws a \<^verbatim>\<open>TypeError\<close>; the text is the
  one V8 prints.
\<close>

definition undefined_property :: "string \<Rightarrow> js_error" where
  "undefined_property p =
     JsError ''TypeError'' (''Cannot read properties of undefined (reading '' @ [CHR 0x27] @ p @ [CHR 0x27] @ '')'')"

subsection \<open>The transport\<close>

text \<open>
  The request the program hands to \<^verbatim>\<open>fetch(url, init)\<close> (the verb, the headers): the init object
  has no \<^verbatim>\<open>body\<close> property, which is \<open>body = None\<close>. Headers are kept in the order in
  which they are appended.
\<close>

record request =
  url :: string
  http_method :: string
  headers :: "(string \<times> string) list"
  body :: "string option"

text \<open>
  A response: the \<^verbatim>\<open>ok\<close> flag, the response headers (names in lower case, as the
  \<^verbatim>\<open>Headers\<close> class looks them up), and what reading the body with \<^verbatim>\<open>json()\<close>
  gives: \<open>Inl e\<close> when the promise rejects with \<open>e\<close> (the body is not JSON, or the
  stream breaks), \<open>Inr v\<close> when it resolves to \<open>v\<close>.
\<close>

record response =
  ok :: bool
  response_headers :: "(string \<times> string) list"
  json :: "js_error + json_value"

datatype outcome = Rejected js_error | Resolved response

text \<open>
  The effects of the program are recorded in a trace: a request handed to the
  transport, and the reading of the body of the response to the request for a URL.
  The transport is a capability outside the program: it answers a request, and the
  answer may depend on everything that happened before.
\<close>

datatype event = Request request | ReadBody string

type_synonym transport = "event list \<Rightarrow> request \<Rightarrow> outcome"

text \<open>
  The environment: whether the global \<^verbatim>\<open>self\<close> is defined (a browser-like host),
  and the variable \<^verbatim>\<open>process.env.GITHUB_TOKEN\<close> (\<open>None\<close> when it is not set).
\<close>

record env =
  self_defined :: bool
  GITHUB_TOKEN :: "string option"

section \<open>The client\<close>

record GithubStats =
  repoOwner :: string
  repoName :: string
  token :: string

text \<open>
  The constructor. The parameter \<^verbatim>\<open>token: string = ''\<close> is \<open>None\<close> when the caller
  leaves it out, and then takes its default. \<^verbatim>\<open>a || b\<close> on strings is \<open>a\<close> unless
  \<open>a\<close> is empty (or undefined).
\<close>

definition truthy :: "string option \<Rightarrow> bool" where
  "truthy s = (case s of None \<Rightarrow> False | Some t \<Rightarrow> t \<noteq> '''')"

definition new_GithubStats :: "env \<Rightarrow> string \<Rightarrow> string \<Rightarrow> string option \<Rightarrow> GithubStats" where
  "new_GithubStats e owner name tok =
     (let t = (case tok of None \<Rightarrow> '''' | Some s \<Rightarrow> s) in
      \<lparr>repoOwner = owner, repoName = name,
       token =
         (if \<not> self_defined e then
            (if t \<noteq> '''' then t
             else if truthy (GITHUB_TOKEN e) then the (GITHUB_TOKEN e)
             else '''')
          else t)\<rparr>)"

subsection \<open>The link header\<close>

text \<open>
  The next page is found with the regular expression
  \<^verbatim>\<open>/^.*<(.*)>; rel="next"/\<close>. A dot matches every character but a line terminator;
  a star is greedy and backtracks: it first takes as many characters as it can and
  gives them back one at a time until the rest of the expression matches.
  \<open>dot_star k acc s\<close> is \<^verbatim>\<open>.*\<close> at the start of \<open>s\<close>, followed by the rest of the
  expression \<open>k\<close>, which gets the characters the star has taken (after \<open>acc\<close>) and the
  characters that are left.
\<close>

definition is_dot :: "char \<Rightarrow> bool" where
  "is_dot c = (c \<noteq> CHR 0x0A \<and> c \<noteq> CHR 0x0D)"

fun dot_star :: "(string \<Rightarrow> string \<Rightarrow> 'b option) \<Rightarrow> string \<Rightarrow> string \<Rightarrow> 'b option" where
  "dot_star k acc [] = k acc []"
| "dot_star k acc (c # cs) =
     (if is_dot c then
        (case dot_star k (acc @ [c]) cs of
           Some y \<Rightarrow> Some y
         | None \<Rightarrow> k acc (c # cs))
      else k acc (c # cs))"

text \<open>The literal \<^verbatim>\<open>>; rel="next"\<close> that ends the expression.\<close>

definition rel_next :: string where
  "rel_next = ''>; rel='' @ [CHR 0x22] @ ''next'' @ [CHR 0x22]"

text \<open>\<^verbatim>\<open>(.*)>; rel="next"\<close>, giving the group.\<close>

definition match_group :: "string \<Rightarrow> string option" where
  "match_group s =
     dot_star (\<lambda>g r. if take (length rel_next) r = rel_next then Some g else None) [] s"

text \<open>The whole expression, giving \<^verbatim>\<open>match[1]\<close>, or \<open>None\<close> when there is no match.\<close>

definition match_next :: "string \<Rightarrow> string option" where
  "match_next s =
     dot_star (\<lambda>p r. case r of
                        [] \<Rightarrow> None
                      | c # r' \<Rightarrow> if c = CHR ''<'' then match_group r' else None) [] s"

definition next_link :: "response \<Rightarrow> string option" where
  "next_link resp =
     (case map_of (response_headers resp) ''link'' of
        None \<Rightarrow> None
      | Some h \<Rightarrow> match_next h)"

subsection \<open>The paginated fetcher\<close>

definition request_headers :: "GithubStats \<Rightarrow> env \<Rightarrow> (string \<times> string) list" where
  "request_headers c e =
     (if \<not> self_defined e then [(''User-Agent'', ''github-release-stats'')] else [])
     @ (if token c \<noteq> '''' then [(''Authorization'', ''token '' @ token c)] else [])"

definition make_request :: "GithubStats \<Rightarrow> env \<Rightarrow> string \<Rightarrow> request" where
  "make_request c e u =
     \<lparr>url = u, http_method = ''GET'', headers = request_headers c e, body = None\<rparr>"

text \<open>\<^verbatim>\<open>[v].flat()\<close>: the elements of an array, a lone object as it is.\<close>

definition flat :: "json_value list \<Rightarrow> GithubRelease list" where
  "flat vs = concat (map (\<lambda>v. case v of JArray xs \<Rightarrow> xs | JObject x \<Rightarrow> [x]) vs)"

text \<open>The property \<^verbatim>\<open>message\<close> of a parsed body; an array has none.\<close>

definition message_of :: "json_value \<Rightarrow> string option" where
  "message_of v = (case v of JObject x \<Rightarrow> message x | JArray xs \<Rightarrow> None)"

type_synonym 'a result = "(js_error + 'a) \<times> event list"

text \<open>
  The last statements of \<^verbatim>\<open>fetch\<close>:
  \<^verbatim>\<open>result.unshift(...[await response.json()].flat()); return result\<close>, where \<open>rest\<close>
  is what the following pages have pushed.
\<close>

definition unshift_page :: "string \<Rightarrow> response \<Rightarrow> GithubRelease list \<Rightarrow> event list \<Rightarrow> GithubRelease list result" where
  "unshift_page u resp rest tr =
     (case json resp of
        Inl err \<Rightarrow> (Inl err, tr @ [ReadBody u])
      | Inr v \<Rightarrow> (Inr (flat [v] @ rest), tr @ [ReadBody u]))"

text \<open>
  \<^verbatim>\<open>GithubStats.fetch\<close>. A thrown error or a rejected promise is \<open>Inl\<close>; a server
  whose pages never stop advertising a next page makes the recursion run forever, which
  is the value \<open>None\<close>.
\<close>

partial_function (option) fetch ::
  "GithubStats \<Rightarrow> env \<Rightarrow> transport \<Rightarrow> string \<Rightarrow> event list \<Rightarrow> GithubRelease list result option" where
  "fetch c e net u tr =
     (let tr1 = tr @ [Request (make_request c e u)] in
      case net tr (make_request c e u) of
        Rejected err \<Rightarrow> Some (Inl err, tr1)
      | Resolved resp \<Rightarrow>
          if \<not> ok resp then
            (case json resp of
               Inl err \<Rightarrow> Some (Inl err, tr1 @ [ReadBody u])
             | Inr v \<Rightarrow> Some (Inl (GithubError (message_of v)), tr1 @ [ReadBody u]))
          else
            (case next_link resp of
               Some u' \<Rightarrow>
                 Option.bind (fetch c e net u' tr1)
                   (\<lambda>(r, tr2). case r of
                       Inl err \<Rightarrow> Some (Inl err, tr2)
                     | Inr rest \<Rightarrow> Some (unshift_page u resp rest tr2))
             | None \<Rightarrow> Some (unshift_page u resp [] tr1)))"

subsection \<open>The queries\<close>

definition releases_url :: "GithubStats \<Rightarrow> string" where
  "releases_url c =
     ''https://api.github.com/repos/'' @ repoOwner c @ ''/'' @ repoName c @ ''/releases?per_page=100''"

definition tag_url :: "GithubStats \<Rightarrow> string \<Rightarrow> string" where
  "tag_url c tag =
     ''https://api.github.com/repos/'' @ repoOwner c @ ''/'' @ repoName c @ ''/releases/tags/'' @ tag"

definition latest_url :: "GithubStats \<Rightarrow> string" where
  "latest_url c =
     ''https://api.github.com/repos/'' @ repoOwner c @ ''/'' @ repoName c @ ''/releases/latest''"

text \<open>
  \<open>and_then\<close> is \<^verbatim>\<open>await\<close> followed by the rest of an \<^verbatim>\<open>async\<close> function: a rejection
  passes through, a value goes to the continuation, which may throw.
\<close>

definition and_then :: "'a result option \<Rightarrow> ('a \<Rightarrow> js_error + 'b) \<Rightarrow> 'b result option" where
  "and_then m k =
     (case m of
        None \<Rightarrow> None
      | Some (Inl err, tr) \<Rightarrow> Some (Inl err, tr)
      | Some (Inr x, tr) \<Rightarrow> Some (k x, tr))"

text \<open>\<^verbatim>\<open>response[0]\<close>: the first element, \<^verbatim>\<open>undefined\<close> (\<open>None\<close>) on an empty array.\<close>

definition first_element :: "'a list \<Rightarrow> 'a option" where
  "first_element xs = (case xs of [] \<Rightarrow> None | x # _ \<Rightarrow> Some x)"

definition getAllReleases :: "GithubStats \<Rightarrow> env \<Rightarrow> transport \<Rightarrow> event list \<Rightarrow> GithubRelease list result option" where
  "getAllReleases c e net tr = and_then (fetch c e net (releases_url c) tr) Inr"

definition getRelease :: "GithubStats \<Rightarrow> env \<Rightarrow> transport \<Rightarrow> string \<Rightarrow> event list \<Rightarrow> GithubRelease option result option" where
  "getRelease c e net tag tr =
     and_then (fetch c e net (tag_url c tag) tr) (\<lambda>response. Inr (first_element response))"

definition getLatestRelease :: "GithubStats \<Rightarrow> env \<Rightarrow> transport \<Rightarrow> event list \<Rightarrow> GithubRelease option result option" where
  "getLatestRelease c e net tr =
     and_then (fetch c e net (latest_url c) tr) (\<lambda>response. Inr (first_element response))"

text \<open>\<^verbatim>\<open>assets.reduce((acc, asset) => acc + asset.download_count, 0)\<close>\<close>

definition asset_downloads :: "GithubAsset list \<Rightarrow> number" where
  "asset_downloads xs = foldl (\<lambda>acc asset. js_add acc (download_count asset)) (num 0) xs"

text \<open>
  \<^verbatim>\<open>releases.reduce((acc, release) => acc + release.assets.reduce(...), 0)\<close>
\<close>

definition total_downloads :: "GithubRelease list \<Rightarrow> number" where
  "total_downloads rs =
     foldl (\<lambda>acc release. js_add acc (asset_downloads (assets release))) (num 0) rs"

text \<open>\<^verbatim>\<open>release.assets.reduce(...)\<close> on a release that may be \<^verbatim>\<open>undefined\<close>.\<close>

definition release_downloads :: "GithubRelease option \<Rightarrow> js_error + number" where
  "release_downloads release =
     (case release of
        None \<Rightarrow> Inl (undefined_property ''assets'')
      | Some r \<Rightarrow> Inr (asset_downloads (assets r)))"

definition getTotalDownloads :: "GithubStats \<Rightarrow> env \<Rightarrow> transport \<Rightarrow> event list \<Rightarrow> number result option" where
  "getTotalDownloads c e net tr =
     and_then (getAllReleases c e net tr) (\<lambda>releases. Inr (total_downloads releases))"

definition getReleaseDownloads :: "GithubStats \<Rightarrow> env \<Rightarrow> transport \<Rightarrow> string \<Rightarrow> event list \<Rightarrow> number result option" where
  "getReleaseDownloads c e net tag tr = and_then (getRelease c e net tag tr) release_downloads"

definition getLatestReleaseDownloads :: "GithubStats \<Rightarrow> env \<Rightarrow> transport \<Rightarrow> event list \<Rightarrow> number result option" where
  "getLatestReleaseDownloads c e net tr = and_then (getLatestRelease c e net tr) release_downloads"

section \<open>Pagination chains\<close>

text \<open>The requests for a list of URLs, as they stand in the trace.\<close>

definition requests :: "GithubStats \<Rightarrow> env \<Rightarrow> string list \<Rightarrow> event list" where
  "requests c e us = map (\<lambda>u. Request (make_request c e u)) us"

text \<open>
  \<open>follow c e net tr u ps = Some (us, u1)\<close>: starting with the request for \<open>u\<close> after the
  trace \<open>tr\<close>, the transport answers with the pages \<open>ps\<close>, one after the other, each of
  them a success whose link header names a next page; \<open>us\<close> are the URLs of these pages
  and \<open>u1\<close> is the URL the last of them names.
\<close>

fun follow :: "GithubStats \<Rightarrow> env \<Rightarrow> transport \<Rightarrow> event list \<Rightarrow> string \<Rightarrow> response list \<Rightarrow> (string list \<times> string) option" where
  "follow c e net tr u [] = Some ([], u)"
| "follow c e net tr u (p # ps) =
     (if net tr (make_request c e u) = Resolved p \<and> ok p then
        (case next_link p of
           None \<Rightarrow> None
         | Some u' \<Rightarrow>
             map_option (\<lambda>(us, u1). (u # us, u1))
               (follow c e net (tr @ [Request (make_request c e u)]) u' ps))
      else None)"

text \<open>The body of a page parses, and the records it then holds.\<close>

definition parses :: "response \<Rightarrow> bool" where
  "parses p = (case json p of Inl err \<Rightarrow> False | Inr v \<Rightarrow> True)"

definition records :: "response \<Rightarrow> GithubRelease list" where
  "records p = (case json p of Inl err \<Rightarrow> [] | Inr v \<Rightarrow> flat [v])"

text \<open>
  What the pending calls of \<^verbatim>\<open>fetch\<close> do, innermost first, once the call for the page
  after them has returned \<open>x\<close>.
\<close>

fun unwind :: "(string \<times> response) list \<Rightarrow> GithubRelease list result \<Rightarrow> GithubRelease list result" where
  "unwind [] x = x"
| "unwind ((u, p) # ps) x =
     (case unwind ps x of
        (Inl err, tr) \<Rightarrow> (Inl err, tr)
      | (Inr rest, tr) \<Rightarrow> unshift_page u p rest tr)"

text \<open>
  A trace in which the body of every response is read before the next request goes
  out; \<open>pending\<close> holds the URLs requested whose bodies have not been read yet.
\<close>

fun consumed_before_next :: "string list \<Rightarrow> event list \<Rightarrow> bool" where
  "consumed_before_next pending [] = True"
| "consumed_before_next pending (Request r # es) = (pending = [] \<and> consumed_before_next [url r] es)"
| "consumed_before_next pending (ReadBody u # es) = consumed_before_next (removeAll u pending) es"

section \<open>A sample repository\<close>

text \<open>
  Two releases on two pages of one release each, \<^verbatim>\<open>v1.1.0\<close> with assets downloaded 110
  and 210 times and \<^verbatim>\<open>v1.0.0\<close> with 100 and 200, served under the URLs and with the
  link headers of the test suite's fake API.
\<close>

definition sample_env :: env where
  "sample_env = \<lparr>self_defined = False, GITHUB_TOKEN = None\<rparr>"

definition sample_client :: GithubStats where
  "sample_client = new_GithubStats sample_env ''foo'' ''bar'' None"

definition release_v1_1_0 :: GithubRelease where
  "release_v1_1_0 = \<lparr>message = None, assets = [\<lparr>download_count = num 110\<rparr>, \<lparr>download_count = num 210\<rparr>]\<rparr>"

definition release_v1_0_0 :: GithubRelease where
  "release_v1_0_0 = \<lparr>message = None, assets = [\<lparr>download_count = num 100\<rparr>, \<lparr>download_count = num 200\<rparr>]\<rparr>"

definition page_url :: "string \<Rightarrow> string" where
  "page_url n = ''https://api.github.com/repositories/1/releases?page='' @ n"

definition link_rel :: "string \<Rightarrow> string \<Rightarrow> string" where
  "link_rel u r = ''<'' @ u @ ''>; rel='' @ [CHR 0x22] @ r @ [CHR 0x22]"

definition sample_page1 :: response where
  "sample_page1 =
     \<lparr>ok = True,
      response_headers = [(''link'', link_rel (page_url ''2'') ''next'' @ '', '' @ link_rel (page_url ''2'') ''last'')],
      json = Inr (JArray [release_v1_1_0])\<rparr>"

definition sample_page2 :: response where
  "sample_page2 =
     \<lparr>ok = True,
      response_headers = [(''link'', link_rel (page_url ''1'') ''prev'' @ '', '' @ link_rel (page_url ''1'') ''first'')],
      json = Inr (JArray [release_v1_0_0])\<rparr>"

definition sample_release :: response where
  "sample_release = \<lparr>ok = True, response_headers = [], json = Inr (JObject release_v1_0_0)\<rparr>"

definition sample_not_found :: response where
  "sample_not_found =
     \<lparr>ok = False, response_headers = [],
      json = Inr (JObject \<lparr>message = Some ''Not Found'', assets = []\<rparr>)\<rparr>"

definition sample_net :: transport where
  "sample_net tr req =
     (if url req = ''https://api.github.com/repos/foo/bar/releases?per_page=100'' then Resolved sample_page1
      else if url req = page_url ''2'' then Resolved sample_page2
      else if url req = ''https://api.github.com/repos/foo/bar/releases/tags/v1.0.0'' then Resolved sample_release
      else if url req = ''https://api.github.com/repos/foo/bar/releases/latest'' then Resolved sample_release
      else Resolved sample_not_found)"

text \<open>The fake API's empty response: every request is answered with an empty array.\<close>

definition empty_net :: transport where
  "empty_net tr req = Resolved \<lparr>ok = True, response_headers = [], json = Inr (JArray [])\<rparr>"

text \<open>
  Transports that fail: \<open>broken_net\<close> serves the first page and rejects every other
  call; \<open>garbled_net\<close> serves two pages, the first with a body that is not JSON;
  \<open>truncated_net\<close> serves one page with such a body.
\<close>

definition network_error :: js_error where
  "network_error = Error (Some ''Network error'')"

definition syntax_error :: js_error where
  "syntax_error = JsError ''SyntaxError'' ''Unexpected end of JSON input''"

definition broken_net :: transport where
  "broken_net tr req =
     (if url req = ''https://api.github.com/repos/foo/bar/releases?per_page=100'' then Resolved sample_page1
      else Rejected network_error)"

definition garbled_net :: transport where
  "garbled_net tr req =
     (if url req = ''https://api.github.com/repos/foo/bar/releases?per_page=100''
      then Resolved (sample_page1\<lparr>json := Inl syntax_error\<rparr>)
      else Resolved sample_page2)"

definition truncated_net :: transport where
  "truncated_net tr req = Resolved (sample_page2\<lparr>json := Inl syntax_error\<rparr>)"

text \<open>A repository that does not exist: every request is answered with 404.\<close>

definition missing_net :: transport where
  "missing_net tr req = Resolved sample_not_found"

text \<open>No network: every call is rejected, as in the test of a network error.\<close>

definition offline_net :: transport where
  "offline_net tr req = Rejected network_error"

text \<open>
  A release with three assets, downloaded \<open>2\<^sup>5\<^sup>3\<close> times, once and once, served on one
  page.
\<close>

definition big_release :: GithubRelease where
  "big_release =
     \<lparr>message = None,
      assets = [\<lparr>download_count = num 9007199254740992\<rparr>,
                \<lparr>download_count = num 1\<rparr>, \<lparr>download_count = num 1\<rparr>]\<rparr>"

definition big_net :: transport where
  "big_net tr req = Resolved \<lparr>ok = True, response_headers = [], json = Inr (JArray [big_release])\<rparr>"

text \<open>A client constructed with a token, as in the test suite.\<close>

definition token_client :: GithubStats where
  "token_client = new_GithubStats sample_env ''foo'' ''bar'' (Some ''secret'')"

section \<open>Properties\<close>

subsection \<open>One step of the fetcher\<close>

lemma fetch_rejected:
  assumes "net tr (make_request c e u) = Rejected err"
  shows "fetch c e net u tr = Some (Inl err, tr @ [Request (make_request c e u)])"
  by (subst fetch.simps) (simp add: assms)

lemma fetch_not_ok:
  assumes "net tr (make_request c e u) = Resolved p" and "\<not> ok p"
  shows "fetch c e net u tr =
         Some (case json p of Inl err \<Rightarrow> Inl err | Inr v \<Rightarrow> Inl (GithubError (message_of v)),
               tr @ [Request (make_request c e u), ReadBody u])"
  by (subst fetch.simps) (simp add: assms split: sum.split)

lemma fetch_last:
  assumes "net tr (make_request c e u) = Resolved p" and "ok p" and "next_link p = None"
  shows "fetch c e net u tr = Some (unshift_page u p [] (tr @ [Request (make_request c e u)]))"
  by (subst fetch.simps) (simp add: assms)

lemma fetch_last_parsed:
  assumes "net tr (make_request c e u) = Resolved p" and "ok p" and "next_link p = None"
    and "json p = Inr v"
  shows "fetch c e net u tr =
         Some (Inr (flat [v]), tr @ [Request (make_request c e u), ReadBody u])"
  by (simp add: fetch_last [where net = net, OF assms(1-3)] unshift_page_def assms(4))

lemma fetch_next:
  assumes "net tr (make_request c e u) = Resolved p" and "ok p" and "next_link p = Some u'"
  shows "fetch c e net u tr =
         Option.bind (fetch c e net u' (tr @ [Request (make_request c e u)]))
           (\<lambda>x. Some (unwind [(u, p)] x))"
proof -
  have "(\<lambda>(r, tr2). case r of Inl err \<Rightarrow> Some (Inl err, tr2)
                     | Inr rest \<Rightarrow> Some (unshift_page u p rest tr2))
        = (\<lambda>x. Some (unwind [(u, p)] x))"
    by (auto simp: fun_eq_iff split: sum.split)
  then show ?thesis
    by (subst fetch.simps) (simp add: assms)
qed

subsection \<open>Unwinding a chain\<close>

lemma unwind_error: "unwind ps (Inl err, tr) = (Inl err, tr)"
  by (induction ps) auto

lemma unwind_records:
  assumes "list_all parses (map snd ps)"
  shows "unwind ps (Inr rest, tr) =
         (Inr (concat (map (records \<circ> snd) ps) @ rest), tr @ map ReadBody (rev (map fst ps)))"
  using assms
proof (induction ps)
  case Nil
  then show ?case by simp
next
  case (Cons a ps)
  obtain u p where a: "a = (u, p)" by (cases a)
  from Cons.prems a obtain v where v: "json p = Inr v"
    by (auto simp: parses_def split: sum.splits)
  from Cons show ?case
    by (simp add: a v unshift_page_def records_def)
qed

lemma follow_length:
  "follow c e net tr u ps = Some (us, u1) \<Longrightarrow> length us = length ps"
  by (induction ps arbitrary: tr u us) (auto split: if_splits option.splits)

lemma zip_follow:
  assumes "follow c e net tr u ps = Some (us, u1)"
  shows "map fst (zip us ps) = us" and "map snd (zip us ps) = ps"
  using follow_length [OF assms] by simp_all

lemma fetch_follow:
  assumes "follow c e net tr u ps = Some (us, u1)"
  shows "fetch c e net u tr =
         Option.bind (fetch c e net u1 (tr @ requests c e us))
           (\<lambda>x. Some (unwind (zip us ps) x))"
  using assms
proof (induction ps arbitrary: tr u us)
  case Nil
  then show ?case by (simp add: requests_def)
next
  case (Cons p ps)
  from Cons.prems obtain u' us' where
    net: "net tr (make_request c e u) = Resolved p" and okp: "ok p" and
    nxt: "next_link p = Some u'" and
    rest: "follow c e net (tr @ [Request (make_request c e u)]) u' ps = Some (us', u1)" and
    us: "us = u # us'"
    by (auto split: if_splits option.splits)
  have "fetch c e net u tr =
        Option.bind (fetch c e net u' (tr @ [Request (make_request c e u)]))
          (\<lambda>x. Some (unwind [(u, p)] x))"
    by (rule fetch_next [where net = net, OF net okp nxt])
  also have "\<dots> =
        Option.bind (fetch c e net u1 ((tr @ [Request (make_request c e u)]) @ requests c e us'))
          (\<lambda>x. Some (unwind ((u, p) # zip us' ps) x))"
    by (simp add: Cons.IH [OF rest] Option.bind_assoc del: unwind.simps)
       (simp cong: Option.bind_cong)
  finally show ?case
    by (simp add: us requests_def)
qed

text \<open>
  A chain that ends: the pages \<open>ps\<close> lead to a last page \<open>p\<close> without a next link,
  and every body parses. Then \<open>fetch\<close> returns, with the records of all pages in page
  order, after one request per page in page order and the reading of the bodies,
  last page first.
\<close>

lemma fetch_chain:
  assumes pages: "follow c e net tr u ps = Some (us, u1)"
    and last: "net (tr @ requests c e us) (make_request c e u1) = Resolved p"
    and okp: "ok p" and nxt: "next_link p = None"
    and bodies: "list_all parses (ps @ [p])"
  shows "fetch c e net u tr =
         Some (Inr (concat (map records (ps @ [p]))),
               tr @ requests c e (us @ [u1]) @ map ReadBody (rev (us @ [u1])))"
proof -
  from bodies obtain v where v: "json p = Inr v"
    by (auto simp: parses_def split: sum.splits)
  have tail: "fetch c e net u1 (tr @ requests c e us) =
        Some (Inr (records p), (tr @ requests c e us) @ [Request (make_request c e u1), ReadBody u1])"
    using fetch_last_parsed [where net = net, OF last okp nxt v]
    by (simp add: records_def v)
  from bodies have "list_all parses (map snd (zip us ps))"
    by (simp add: zip_follow [OF pages])
  from unwind_records [OF this]
  have "unwind (zip us ps)
          (Inr (records p), (tr @ requests c e us) @ [Request (make_request c e u1), ReadBody u1]) =
        (Inr (concat (map (records \<circ> snd) (zip us ps)) @ records p),
         ((tr @ requests c e us) @ [Request (make_request c e u1), ReadBody u1])
         @ map ReadBody (rev (map fst (zip us ps))))" .
  moreover have "map (records \<circ> snd) (zip us ps) = map records ps"
    using zip_follow(2) [OF pages] by (metis map_map)
  ultimately have "unwind (zip us ps)
          (Inr (records p), (tr @ requests c e us) @ [Request (make_request c e u1), ReadBody u1]) =
        (Inr (concat (map records (ps @ [p]))),
         tr @ requests c e (us @ [u1]) @ map ReadBody (rev (us @ [u1])))"
    by (simp add: zip_follow(1) [OF pages] requests_def)
  then show ?thesis
    by (simp only: fetch_follow [OF pages] tail Option.bind.simps)
qed

text \<open>An error of the call for the page after \<open>ps\<close> is the result of the whole call.\<close>

lemma fetch_chain_error:
  assumes "follow c e net tr u ps = Some (us, u1)"
    and "fetch c e net u1 (tr @ requests c e us) = Some (Inl err, tr')"
  shows "fetch c e net u tr = Some (Inl err, tr')"
  by (simp add: fetch_follow [OF assms(1)] assms(2) unwind_error)

subsection \<open>Every request is built by \<open>make_request\<close>\<close>

lemma fetch_sends:
  assumes "fetch c e net u tr = Some y"
  shows "\<exists>sent. snd y = tr @ sent \<and> (\<forall>req. Request req \<in> set sent \<longrightarrow> (\<exists>u'. req = make_request c e u'))"
proof (rule fetch.raw_induct
    [where P = "\<lambda>c e net u tr y. \<exists>sent. snd y = tr @ sent
                  \<and> (\<forall>req. Request req \<in> set sent \<longrightarrow> (\<exists>u'. req = make_request c e u'))",
     OF _ assms], goal_cases)
  case (1 fetch' c e net u tr y)
  show ?case
  proof (cases "net tr (make_request c e u)")
    case (Rejected err)
    with 1(2) show ?thesis by (auto simp: Let_def)
  next
    case (Resolved p)
    show ?thesis
    proof (cases "ok p")
      case False
      with 1(2) Resolved show ?thesis by (auto simp: Let_def split: sum.splits)
    next
      case True
      show ?thesis
      proof (cases "next_link p")
        case None
        with 1(2) Resolved True show ?thesis
          by (auto simp: Let_def unshift_page_def split: sum.splits)
      next
        case (Some u')
        with 1(2) Resolved True have
          "Option.bind (fetch' c e net u' (tr @ [Request (make_request c e u)]))
             (\<lambda>(r, tr2). case r of Inl err \<Rightarrow> Some (Inl err, tr2)
                          | Inr rest \<Rightarrow> Some (unshift_page u p rest tr2)) = Some y"
          by (simp add: Let_def)
        then obtain r tr2 where
          call: "fetch' c e net u' (tr @ [Request (make_request c e u)]) = Some (r, tr2)" and
          res: "(case r of Inl err \<Rightarrow> Some (Inl err, tr2)
                 | Inr rest \<Rightarrow> Some (unshift_page u p rest tr2)) = Some y"
          by (auto simp: bind_eq_Some_conv)
        from res have
          y: "y = (case r of Inl err \<Rightarrow> (Inl err, tr2) | Inr rest \<Rightarrow> unshift_page u p rest tr2)"
          by (cases r) auto
        from 1(1) [OF call] obtain sent where
          sent: "tr2 = (tr @ [Request (make_request c e u)]) @ sent"
            "\<forall>req. Request req \<in> set sent \<longrightarrow> (\<exists>u'. req = make_request c e u')"
          by auto
        have "snd y = tr2 \<or> snd y = tr2 @ [ReadBody u]"
          by (auto simp: y unshift_page_def split: sum.splits)
        then show ?thesis
        proof
          assume "snd y = tr2"
          with sent have "snd y = tr @ (Request (make_request c e u) # sent)" by simp
          moreover from sent(2) have "\<forall>req. Request req \<in> set (Request (make_request c e u) # sent) \<longrightarrow> (\<exists>u'. req = make_request c e u')"
            by auto
          ultimately show ?thesis by blast
        next
          assume "snd y = tr2 @ [ReadBody u]"
          with sent have "snd y = tr @ (Request (make_request c e u) # sent @ [ReadBody u])" by simp
          moreover from sent(2) have "\<forall>req. Request req \<in> set (Request (make_request c e u) # sent @ [ReadBody u]) \<longrightarrow> (\<exists>u'. req = make_request c e u')"
            by auto
          ultimately show ?thesis by blast
        qed
      qed
    qed
  qed
qed

lemma request_headers_shape:
  "map_of (request_headers c e) ''Authorization'' =
     (if token c = '''' then None else Some (''token '' @ token c))
   \<and> map_of (request_headers c e) ''User-Agent'' =
     (if self_defined e then None else Some ''github-release-stats'')
   \<and> set (map fst (request_headers c e)) \<subseteq> {''User-Agent'', ''Authorization''}
   \<and> distinct (map fst (request_headers c e))"
  by (simp add: request_headers_def)

subsection \<open>What the regular expression finds\<close>

text \<open>
  The star tries its splits from the longest to the shortest, so the continuation
  succeeds at the last split at which it can. For a link header without line
  terminators that reads \<open>pre\<close>, \<^verbatim>\<open><\<close>, \<open>u\<close>, \<^verbatim>\<open>>; rel="next"\<close>, \<open>post\<close>, where \<open>u\<close> holds
  no \<^verbatim>\<open><\<close> and the literal does not occur again further right, the group is \<open>u\<close>.
\<close>

lemma dot_star_none:
  assumes "list_all is_dot s"
    and "\<And>n. n \<le> length s \<Longrightarrow> k (acc @ take n s) (drop n s) = None"
  shows "dot_star k acc s = None"
  using assms
proof (induction s arbitrary: acc)
  case Nil
  from Nil(2) [of 0] show ?case by simp
next
  case (Cons c cs)
  have "dot_star k (acc @ [c]) cs = None"
  proof (rule Cons.IH)
    from Cons.prems(1) show "list_all is_dot cs" by simp
  next
    fix n assume "n \<le> length cs"
    with Cons.prems(2) [of "Suc n"] show "k ((acc @ [c]) @ take n cs) (drop n cs) = None"
      by simp
  qed
  moreover from Cons.prems(2) [of 0] have "k acc (c # cs) = None" by simp
  ultimately show ?case by simp
qed

lemma dot_star_last:
  assumes "list_all is_dot s" and "n \<le> length s"
    and "k (acc @ take n s) (drop n s) = Some y"
    and "\<And>m. n < m \<Longrightarrow> m \<le> length s \<Longrightarrow> k (acc @ take m s) (drop m s) = None"
  shows "dot_star k acc s = Some y"
  using assms
proof (induction s arbitrary: acc n)
  case Nil
  then show ?case by simp
next
  case (Cons c cs)
  from Cons.prems(1) have c: "is_dot c" and cs: "list_all is_dot cs" by simp_all
  show ?case
  proof (cases n)
    case 0
    have "dot_star k (acc @ [c]) cs = None"
    proof (rule dot_star_none [OF cs])
      fix m assume "m \<le> length cs"
      with Cons.prems(4) [of "Suc m"] 0 show "k ((acc @ [c]) @ take m cs) (drop m cs) = None"
        by simp
    qed
    with Cons.prems(3) 0 c show ?thesis by simp
  next
    case (Suc n')
    have "dot_star k (acc @ [c]) cs = Some y"
    proof (rule Cons.IH [OF cs, of n'])
      from Cons.prems(2) Suc show "n' \<le> length cs" by simp
    next
      from Cons.prems(3) Suc show "k ((acc @ [c]) @ take n' cs) (drop n' cs) = Some y" by simp
    next
      fix m assume "n' < m" "m \<le> length cs"
      with Cons.prems(4) [of "Suc m"] Suc show "k ((acc @ [c]) @ take m cs) (drop m cs) = None"
        by simp
    qed
    with c show ?thesis by simp
  qed
qed

lemma match_group_literal:
  assumes dots: "list_all is_dot (u @ rel_next @ post)"
    and later: "\<And>m. 0 < m \<Longrightarrow> take (length rel_next) (drop m (rel_next @ post)) \<noteq> rel_next"
  shows "match_group (u @ rel_next @ post) = Some u"
  unfolding match_group_def
proof (rule dot_star_last [OF dots, of "length u"])
  show "length u \<le> length (u @ rel_next @ post)" by simp
next
  show "(if take (length rel_next) (drop (length u) (u @ rel_next @ post)) = rel_next
         then Some ([] @ take (length u) (u @ rel_next @ post)) else None) = Some u"
    by simp
next
  fix m assume m: "length u < m" "m \<le> length (u @ rel_next @ post)"
  then have "drop m (u @ rel_next @ post) = drop (m - length u) (rel_next @ post)"
    by simp
  with later [of "m - length u"] m
  show "(if take (length rel_next) (drop m (u @ rel_next @ post)) = rel_next
         then Some ([] @ take m (u @ rel_next @ post)) else None) = None"
    by simp
qed

lemma match_group_none:
  assumes dots: "list_all is_dot s"
    and none: "\<And>m. take (length rel_next) (drop m s) \<noteq> rel_next"
  shows "match_group s = None"
  unfolding match_group_def
  by (rule dot_star_none [OF dots]) (simp add: none)

lemma match_next_link:
  assumes dots: "list_all is_dot (pre @ CHR ''<'' # u @ rel_next @ post)"
    and u: "CHR ''<'' \<notin> set u"
    and later: "\<And>m. 0 < m \<Longrightarrow> take (length rel_next) (drop m (rel_next @ post)) \<noteq> rel_next"
  shows "match_next (pre @ CHR ''<'' # u @ rel_next @ post) = Some u"
  unfolding match_next_def
proof (rule dot_star_last [OF dots, of "length pre"])
  show "length pre \<le> length (pre @ CHR ''<'' # u @ rel_next @ post)" by simp
next
  from dots have "list_all is_dot (u @ rel_next @ post)" by simp
  from match_group_literal [OF this later]
  show "(case drop (length pre) (pre @ CHR ''<'' # u @ rel_next @ post) of
           [] \<Rightarrow> None
         | c # r' \<Rightarrow> if c = CHR ''<'' then match_group r' else None) = Some u"
    by simp
next
  fix m
  assume m: "length pre < m" "m \<le> length (pre @ CHR ''<'' # u @ rel_next @ post)"
  define j where "j = m - length pre - 1"
  from m have r: "drop m (pre @ CHR ''<'' # u @ rel_next @ post) = drop j (u @ rel_next @ post)"
    by (cases "m - length pre") (simp_all add: j_def)
  have "(case drop j (u @ rel_next @ post) of
           [] \<Rightarrow> None
         | c # r' \<Rightarrow> if c = CHR ''<'' then match_group r' else None) = None"
  proof (cases "drop j (u @ rel_next @ post)")
    case Nil
    then show ?thesis by simp
  next
    case (Cons c r')
    show ?thesis
    proof (cases "c = CHR ''<''")
      case False
      with Cons show ?thesis by simp
    next
      case True
      have "\<not> j < length u"
      proof
        assume "j < length u"
        then have "drop j (u @ rel_next @ post) = drop j u @ rel_next @ post" and "drop j u \<noteq> []"
          by simp_all
        with Cons have "c \<in> set (drop j u)"
          by (cases "drop j u") auto
        then have "c \<in> set u" by (rule in_set_dropD)
        with True u show False by simp
      qed
      then have "drop j (u @ rel_next @ post) = drop (j - length u) (rel_next @ post)"
        by simp
      with Cons have r': "r' = drop (Suc (j - length u)) (rel_next @ post)"
        by (metis drop_Suc list.sel(3) tl_drop)
      from dots have "list_all is_dot (rel_next @ post)" by simp
      then have "list_all is_dot r'"
        unfolding r' list_all_iff by (blast dest: in_set_dropD)
      moreover have "take (length rel_next) (drop n r') \<noteq> rel_next" for n
      proof -
        have "drop n r' = drop (n + Suc (j - length u)) (rel_next @ post)"
          by (simp only: r' drop_drop)
        with later [of "n + Suc (j - length u)"] show ?thesis
          by (simp only: zero_less_Suc add_Suc_right) simp
      qed
      ultimately have "match_group r' = None"
        by (rule match_group_none)
      with Cons True show ?thesis by simp
    qed
  qed
  with r show "(case drop m (pre @ CHR ''<'' # u @ rel_next @ post) of
           [] \<Rightarrow> None
         | c # r' \<Rightarrow> if c = CHR ''<'' then match_group r' else None) = None"
    by simp
qed

subsection \<open>The sample repository, evaluated\<close>

lemma sample_link1: "next_link sample_page1 = Some (page_url ''2'')"
  by (simp add: next_link_def sample_page1_def link_rel_def page_url_def match_next_def
      match_group_def rel_next_def is_dot_def)

lemma sample_link2: "next_link sample_page2 = None"
  by (simp add: next_link_def sample_page2_def link_rel_def page_url_def match_next_def
      match_group_def rel_next_def is_dot_def)

text \<open>
  A page in the middle of a listing names four relations; the expression finds the
  one marked \<^verbatim>\<open>next\<close>.
\<close>

lemma middle_page_link:
  "match_next (link_rel (page_url ''1'') ''prev'' @ '', '' @ link_rel (page_url ''3'') ''next''
               @ '', '' @ link_rel (page_url ''3'') ''last'' @ '', '' @ link_rel (page_url ''1'') ''first'')
   = Some (page_url ''3'')"
  by (simp add: link_rel_def page_url_def match_next_def match_group_def rel_next_def is_dot_def)

lemma next_link_json_update: "next_link (p\<lparr>json := j\<rparr>) = next_link p"
  by (simp add: next_link_def)

lemma sample_releases_url:
  "releases_url sample_client = ''https://api.github.com/repos/foo/bar/releases?per_page=100''"
  by (simp add: releases_url_def sample_client_def new_GithubStats_def)

lemma sample_tag_url:
  "tag_url sample_client tag = ''https://api.github.com/repos/foo/bar/releases/tags/'' @ tag"
  by (simp add: tag_url_def sample_client_def new_GithubStats_def)

lemma sample_latest_url:
  "latest_url sample_client = ''https://api.github.com/repos/foo/bar/releases/latest''"
  by (simp add: latest_url_def sample_client_def new_GithubStats_def)

lemma sample_follow:
  "follow sample_client sample_env sample_net [] (releases_url sample_client) [sample_page1]
   = Some ([releases_url sample_client], page_url ''2'')"
  by (simp add: sample_releases_url sample_net_def make_request_def sample_link1)
     (simp add: sample_page1_def)

lemma sample_page2_served:
  "sample_net ([] @ requests sample_client sample_env [releases_url sample_client])
     (make_request sample_client sample_env (page_url ''2'')) = Resolved sample_page2"
  by (simp add: sample_net_def make_request_def page_url_def)

lemma sample_pages_parse: "list_all parses ([sample_page1] @ [sample_page2])"
  by (simp add: parses_def sample_page1_def sample_page2_def)

lemma sample_records:
  "concat (map records ([sample_page1] @ [sample_page2])) = [release_v1_1_0, release_v1_0_0]"
  by (simp add: records_def flat_def sample_page1_def sample_page2_def)

lemma sample_fetch:
  "fetch sample_client sample_env sample_net (releases_url sample_client) [] =
   Some (Inr [release_v1_1_0, release_v1_0_0],
         requests sample_client sample_env [releases_url sample_client, page_url ''2'']
         @ [ReadBody (page_url ''2''), ReadBody (releases_url sample_client)])"
proof -
  have 2: "fetch sample_client sample_env sample_net (page_url ''2'')
             [Request (make_request sample_client sample_env (releases_url sample_client))]
           = Some (unshift_page (page_url ''2'') sample_page2 []
               ([Request (make_request sample_client sample_env (releases_url sample_client))]
                @ [Request (make_request sample_client sample_env (page_url ''2''))]))"
    by (rule fetch_last [where p = sample_page2])
       (simp_all add: sample_net_def make_request_def page_url_def sample_link2, simp add: sample_page2_def)
  show ?thesis
    by (simp add: fetch_follow [OF sample_follow] requests_def 2 unshift_page_def sample_page1_def
        sample_page2_def flat_def)
qed

lemma sample_release_served:
  "sample_net ([] @ requests sample_client sample_env [])
     (make_request sample_client sample_env (tag_url sample_client ''v1.0.0'')) = Resolved sample_release"
  by (simp add: sample_net_def make_request_def sample_tag_url page_url_def)

lemma sample_latest_served:
  "sample_net ([] @ requests sample_client sample_env [])
     (make_request sample_client sample_env (latest_url sample_client)) = Resolved sample_release"
  by (simp add: sample_net_def make_request_def sample_latest_url page_url_def)

lemma sample_release_shape:
  "ok sample_release" "next_link sample_release = None"
  "json sample_release = Inr (JObject release_v1_0_0)" "list_all parses ([] @ [sample_release])"
  by (simp_all add: sample_release_def next_link_def parses_def)

lemma missing_shape:
  "\<not> ok sample_not_found"
  "json sample_not_found = Inr (JObject \<lparr>message = Some ''Not Found'', assets = []\<rparr>)"
  "message \<lparr>message = Some ''Not Found'', assets = []\<rparr> = Some ''Not Found''"
  by (simp_all add: sample_not_found_def)

lemma broken_follow:
  "follow sample_client sample_env broken_net [] (releases_url sample_client) [sample_page1]
   = Some ([releases_url sample_client], page_url ''2'')"
  by (simp add: sample_releases_url broken_net_def make_request_def sample_link1)
     (simp add: sample_page1_def)

lemma broken_rejects:
  "broken_net ([] @ requests sample_client sample_env [releases_url sample_client])
     (make_request sample_client sample_env (page_url ''2'')) = Rejected network_error"
  by (simp add: broken_net_def make_request_def page_url_def)

lemma garbled_second_page:
  "fetch sample_client sample_env garbled_net (page_url ''2'')
     ([] @ requests sample_client sample_env ([] @ [releases_url sample_client]))
   = Some (Inr [release_v1_0_0],
       [Request (make_request sample_client sample_env (releases_url sample_client)),
        Request (make_request sample_client sample_env (page_url ''2'')),
        ReadBody (page_url ''2'')])"
proof -
  have "fetch sample_client sample_env garbled_net (page_url ''2'')
          [Request (make_request sample_client sample_env (releases_url sample_client))]
        = Some (Inr (flat [JArray [release_v1_0_0]]),
            [Request (make_request sample_client sample_env (releases_url sample_client))]
            @ [Request (make_request sample_client sample_env (page_url ''2'')),
               ReadBody (page_url ''2'')])"
    by (rule fetch_last_parsed [where p = sample_page2])
       (simp_all add: garbled_net_def make_request_def page_url_def sample_link2,
        simp_all add: sample_page2_def)
  then show ?thesis by (simp add: requests_def flat_def)
qed

lemma token_fetch:
  "fetch token_client sample_env empty_net (releases_url token_client) [] =
     Some (Inr [],
       [Request \<lparr>url = ''https://api.github.com/repos/foo/bar/releases?per_page=100'',
                 http_method = ''GET'',
                 headers = [(''User-Agent'', ''github-release-stats''), (''Authorization'', ''token secret'')],
                 body = None\<rparr>,
        ReadBody ''https://api.github.com/repos/foo/bar/releases?per_page=100''])"
proof -
  have "fetch token_client sample_env empty_net (releases_url token_client) [] =
        Some (Inr (flat [JArray []]),
          [] @ [Request (make_request token_client sample_env (releases_url token_client)),
                ReadBody (releases_url token_client)])"
    by (rule fetch_last_parsed [where p = "\<lparr>ok = True, response_headers = [], json = Inr (JArray [])\<rparr>"])
       (simp_all add: empty_net_def next_link_def)
  then show ?thesis
    by (simp add: flat_def make_request_def request_headers_def releases_url_def token_client_def
        new_GithubStats_def sample_env_def)
qed

lemma empty_fetch:
  "fetch sample_client sample_env empty_net u [] =
     Some (Inr [], [Request (make_request sample_client sample_env u), ReadBody u])"
proof -
  have "fetch sample_client sample_env empty_net u [] =
        Some (Inr (flat [JArray []]),
          [] @ [Request (make_request sample_client sample_env u), ReadBody u])"
    by (rule fetch_last_parsed [where p = "\<lparr>ok = True, response_headers = [], json = Inr (JArray [])\<rparr>"])
       (simp_all add: empty_net_def next_link_def)
  then show ?thesis by (simp add: flat_def)
qed

subsection \<open>Adding numbers\<close>

text \<open>
  Rounding leaves a value alone when the bits it would drop are zero, and commutes with
  a scaling by a power of two; so the integers up to \<open>2\<^sup>5\<^sup>3\<close> in size are numbers, and
  adding two of them gives the number nearest to their sum.
\<close>

lemma bits_0: "bits 0 = 0"
  by (simp add: bits.simps)

lemma bits_pos: "0 < n \<Longrightarrow> bits n = Suc (bits (n div 2))"
  by (subst bits.simps) simp

lemma bits_le: "n < 2 ^ j \<Longrightarrow> bits n \<le> j"
proof (induction j arbitrary: n)
  case 0
  then show ?case by (simp add: bits_0)
next
  case (Suc j)
  show ?case
  proof (cases "n = 0")
    case True
    then show ?thesis by (simp add: bits_0)
  next
    case False
    from Suc.prems have "n div 2 < 2 ^ j" by simp
    from Suc.IH [OF this] False show ?thesis by (simp add: bits_pos)
  qed
qed

lemma bits_double: "0 < n \<Longrightarrow> bits (2 * n) = Suc (bits n)"
  by (simp add: bits_pos)

lemma bits_scale: "0 < n \<Longrightarrow> bits (n * 2 ^ s) = bits n + s"
proof (induction s)
  case 0
  then show ?case by simp
next
  case (Suc s)
  then have "bits (2 * (n * 2 ^ s)) = Suc (bits (n * 2 ^ s))"
    by (intro bits_double) simp
  with Suc show ?case by (simp add: mult.commute mult.left_commute)
qed

lemma bits_power: "bits (2 ^ j) = Suc j"
  using bits_scale [of 1 j] by (simp add: bits_pos bits_0)

lemma round_sig_exact:
  assumes "2 ^ (bits a - 53) dvd a"
  shows "round_sig a = a"
proof (cases "bits a \<le> 53")
  case True
  then show ?thesis by (simp add: round_sig_def)
next
  case False
  define k where "k = bits a - 53"
  from False have k: "0 < k" by (simp add: k_def)
  from assms have r: "a mod 2 ^ k = 0" by (simp add: k_def mod_eq_0_iff_dvd)
  then have q: "a div 2 ^ k * 2 ^ k = a" by (simp add: mod_0_imp_dvd)
  have h: "(0::nat) < 2 ^ (k - 1)" by simp
  from False show ?thesis
    unfolding round_sig_def Let_def k_def [symmetric]
    using r q h by simp
qed

lemma round_sig_scale:
  assumes "0 < a"
  shows "round_sig (a * 2 ^ s) = round_sig a * 2 ^ s"
proof (cases "bits a \<le> 53")
  case True
  then have "bits (a * 2 ^ s) - 53 \<le> s"
    by (simp add: bits_scale [OF assms])
  then have "(2::nat) ^ (bits (a * 2 ^ s) - 53) dvd 2 ^ s"
    by (simp add: le_imp_power_dvd)
  then have "2 ^ (bits (a * 2 ^ s) - 53) dvd a * 2 ^ s"
    by (rule dvd_mult)
  from round_sig_exact [OF this] True show ?thesis
    by (simp add: round_sig_def)
next
  case False
  define k where "k = bits a - 53"
  from False have k: "0 < k" by (simp add: k_def)
  from False have k': "bits (a * 2 ^ s) - 53 = k + s"
    by (simp add: bits_scale [OF assms] k_def)
  have big: "\<not> bits (a * 2 ^ s) \<le> 53"
    using False by (simp add: bits_scale [OF assms])
  define q where "q = a div 2 ^ k"
  define r where "r = a mod 2 ^ k"
  define h where "h = (2::nat) ^ (k - 1)"
  have d: "a * 2 ^ s div 2 ^ (k + s) = q"
    by (simp add: power_add q_def)
  have m: "a * 2 ^ s mod 2 ^ (k + s) = r * 2 ^ s"
    by (simp add: power_add r_def)
  from k have h': "(2::nat) ^ (k + s - 1) = h * 2 ^ s"
    by (simp add: power_add [symmetric] h_def)
  have "round_sig (a * 2 ^ s) =
        (if h * 2 ^ s < r * 2 ^ s \<or> (r * 2 ^ s = h * 2 ^ s \<and> odd q) then q + 1 else q) * 2 ^ (k + s)"
    unfolding round_sig_def Let_def k' d m h' using big by (simp only: if_False)
  also have "\<dots> = (if h < r \<or> (r = h \<and> odd q) then q + 1 else q) * 2 ^ (k + s)"
    by simp
  also have "\<dots> = (if h < r \<or> (r = h \<and> odd q) then q + 1 else q) * 2 ^ k * 2 ^ s"
    by (simp add: power_add)
  also have "(if h < r \<or> (r = h \<and> odd q) then q + 1 else q) * 2 ^ k = round_sig a"
    unfolding round_sig_def Let_def k_def [symmetric] q_def r_def h_def using False
    by (simp only: if_False)
  finally show ?thesis .
qed

lemma round_sig_small: "a \<le> 2 ^ 53 \<Longrightarrow> round_sig a = a"
proof (cases "a = 2 ^ 53")
  case True
  have "(2::nat) ^ (bits (2 ^ 53) - 53) dvd 2 ^ 53"
    by (simp only: bits_power) simp
  from round_sig_exact [OF this] True show ?thesis by simp
next
  case False
  assume "a \<le> 2 ^ 53"
  with False have "a < 2 ^ 53" by simp
  from bits_le [OF this] show ?thesis by (simp add: round_sig_def)
qed

lemma round_double_exact:
  assumes "\<bar>n\<bar> \<le> 2 ^ 53"
  shows "round_double (n * 2 ^ scale) = Finite (n * 2 ^ scale)"
proof -
  define m where "m = nat \<bar>n\<bar>"
  from assms have m: "m \<le> 2 ^ 53"
    by (simp add: m_def nat_le_iff)
  have abs: "nat \<bar>n * 2 ^ scale\<bar> = m * 2 ^ scale"
    by (simp add: m_def abs_mult nat_mult_distrib nat_power_eq)
  have rs: "round_sig (m * 2 ^ scale) = m * 2 ^ scale"
  proof (cases "m = 0")
    case True
    then show ?thesis by (simp add: round_sig_def bits_0)
  next
    case False
    then have "round_sig (m * 2 ^ scale) = round_sig m * 2 ^ scale"
      by (intro round_sig_scale) simp
    with round_sig_small [OF m] show ?thesis by simp
  qed
  from m have "m * 2 ^ scale \<le> 2 ^ 53 * 2 ^ scale" by simp
  also have "\<dots> = 2 ^ (53 + scale)" by (simp add: power_add)
  also have "\<dots> < (2::nat) ^ (1024 + scale)" by (simp add: power_strict_increasing_iff)
  finally have fin: "\<not> 2 ^ (1024 + scale) \<le> m * 2 ^ scale" by simp
  have "(if n * 2 ^ scale < 0 then - int (m * 2 ^ scale) else int (m * 2 ^ scale)) = n * 2 ^ scale"
    by (simp add: m_def mult_less_0_iff)
  with fin show ?thesis
    by (simp add: round_double_def abs rs Let_def)
qed

lemma num_exact: "\<bar>n\<bar> \<le> 2 ^ 53 \<Longrightarrow> num n = Finite (n * 2 ^ scale)"
  by (simp add: num_def round_double_exact)

lemma js_add_num:
  assumes "\<bar>a\<bar> \<le> 2 ^ 53" and "\<bar>b\<bar> \<le> 2 ^ 53"
  shows "js_add (num a) (num b) = num (a + b)"
proof -
  have "js_add (num a) (num b) = js_add (Finite (a * 2 ^ scale)) (Finite (b * 2 ^ scale))"
    by (simp only: num_exact [OF assms(1)] num_exact [OF assms(2)])
  also have "\<dots> = round_double (a * 2 ^ scale + b * 2 ^ scale)"
    by simp
  also have "\<dots> = num (a + b)"
    by (simp add: num_def distrib_right)
  finally show ?thesis .
qed

lemma is_count_num: "0 \<le> n \<Longrightarrow> n \<le> 2 ^ 53 \<Longrightarrow> is_count (num n)"
  by (simp add: num_exact is_count_def)

lemma int_of_num: "\<bar>n\<bar> \<le> 2 ^ 53 \<Longrightarrow> int_of (num n) = n"
  by (simp add: num_exact int_of_def)

lemma count_is_num:
  assumes "is_count x"
  shows "x = Finite (int_of x * 2 ^ scale)" and "0 \<le> int_of x"
  using assms
  by (auto simp: is_count_def int_of_def pos_imp_zdiv_nonneg_iff split: number.splits)

text \<open>The tie at \<open>2^53 + 1\<close> goes to the even significand.\<close>

lemma bits_eq: "2 ^ j \<le> n \<Longrightarrow> n < 2 ^ Suc j \<Longrightarrow> bits n = Suc j"
proof (induction j arbitrary: n)
  case 0
  then have "n = 1" by simp
  then show ?case by (simp add: bits_pos bits_0)
next
  case (Suc j)
  then have "2 ^ j \<le> n div 2" and "n div 2 < 2 ^ Suc j" and "0 < n"
    by (simp_all add: less_eq_div_iff_mult_less_eq)
  then show ?case
    using Suc.IH [of "n div 2"] by (simp add: bits_pos)
qed

lemma round_sig_tie: "round_sig 9007199254740993 = 9007199254740992"
proof -
  have b: "bits 9007199254740993 = 54"
    using bits_eq [of 53 9007199254740993] by simp
  show ?thesis
    by (simp add: round_sig_def b Let_def)
qed

lemma num_tie: "num 9007199254740993 = num 9007199254740992"
proof -
  have "round_sig (9007199254740993 * 2 ^ scale) = 9007199254740992 * 2 ^ scale"
    using round_sig_scale [of 9007199254740993 scale] by (simp add: round_sig_tie)
  moreover have "\<not> (2::nat) ^ (1024 + scale) \<le> 9007199254740992 * 2 ^ scale"
  proof -
    have "(9007199254740992::nat) * 2 ^ scale = 2 ^ (53 + scale)" by (simp add: power_add)
    also have "\<dots> < 2 ^ (1024 + scale)" by (simp add: power_strict_increasing_iff)
    finally show ?thesis by simp
  qed
  moreover have "nat \<bar>9007199254740993 * 2 ^ scale\<bar> = 9007199254740993 * 2 ^ scale"
    by (simp add: abs_mult nat_mult_distrib nat_power_eq)
  ultimately have "num 9007199254740993 = Finite (9007199254740992 * 2 ^ scale)"
    by (simp add: num_def round_double_def Let_def mult_less_0_iff)
  then show ?thesis by (simp add: num_exact)
qed

subsection \<open>Download counts\<close>

lemma count_fold:
  assumes "\<forall>x\<in>set xs. f x = Finite (g x * 2 ^ scale) \<and> 0 \<le> g x"
    and "0 \<le> acc" and "acc + (\<Sum>x\<leftarrow>xs. g x) \<le> 2 ^ 53"
  shows "foldl (\<lambda>acc x. js_add acc (f x)) (Finite (acc * 2 ^ scale)) xs
         = Finite ((acc + (\<Sum>x\<leftarrow>xs. g x)) * 2 ^ scale)"
  using assms
proof (induction xs arbitrary: acc)
  case Nil
  then show ?case by simp
next
  case (Cons x xs)
  from Cons.prems(1) have fx: "f x = Finite (g x * 2 ^ scale)" and gx: "0 \<le> g x"
    and rest: "\<forall>y\<in>set xs. f y = Finite (g y * 2 ^ scale) \<and> 0 \<le> g y"
    by simp_all
  from rest have nonneg: "0 \<le> (\<Sum>y\<leftarrow>xs. g y)"
    by (intro sum_list_nonneg) auto
  with Cons.prems(2,3) gx have small: "\<bar>acc + g x\<bar> \<le> 2 ^ 53"
    by simp
  have "js_add (Finite (acc * 2 ^ scale)) (f x) = round_double ((acc + g x) * 2 ^ scale)"
    by (simp add: fx distrib_right)
  also have "\<dots> = Finite ((acc + g x) * 2 ^ scale)"
    by (rule round_double_exact [OF small])
  finally have step: "js_add (Finite (acc * 2 ^ scale)) (f x) = Finite ((acc + g x) * 2 ^ scale)" .
  from Cons.prems(2,3) gx have "0 \<le> acc + g x" and "acc + g x + (\<Sum>y\<leftarrow>xs. g y) \<le> 2 ^ 53"
    by simp_all
  from Cons.IH [OF rest this] show ?case
    by (simp add: step add.assoc)
qed

lemma num_0: "num 0 = Finite 0"
  using num_exact [of 0] by simp

lemma asset_downloads_sum:
  assumes "\<forall>a\<in>set xs. is_count (download_count a)"
    and "(\<Sum>a\<leftarrow>xs. int_of (download_count a)) \<le> 2 ^ 53"
  shows "asset_downloads xs = Finite ((\<Sum>a\<leftarrow>xs. int_of (download_count a)) * 2 ^ scale)"
proof -
  from assms(1) have "\<forall>a\<in>set xs. download_count a = Finite (int_of (download_count a) * 2 ^ scale)
      \<and> 0 \<le> int_of (download_count a)"
    using count_is_num by blast
  from count_fold [where f = download_count and acc = 0, OF this] assms(2)
  show ?thesis by (simp add: asset_downloads_def num_0)
qed

lemma total_downloads_sum:
  assumes "\<forall>r\<in>set rs. \<forall>a\<in>set (assets r). is_count (download_count a)"
    and "(\<Sum>r\<leftarrow>rs. \<Sum>a\<leftarrow>assets r. int_of (download_count a)) \<le> 2 ^ 53"
  shows "total_downloads rs
         = Finite ((\<Sum>r\<leftarrow>rs. \<Sum>a\<leftarrow>assets r. int_of (download_count a)) * 2 ^ scale)"
proof -
  have nonneg: "0 \<le> (\<Sum>a\<leftarrow>assets r. int_of (download_count a))" if "r \<in> set rs" for r
    using assms(1) that count_is_num(2) by (intro sum_list_nonneg) auto
  have each: "(\<Sum>a\<leftarrow>assets r. int_of (download_count a)) \<le> 2 ^ 53" if "r \<in> set rs" for r
  proof -
    have "(\<Sum>a\<leftarrow>assets r. int_of (download_count a))
          \<le> (\<Sum>r\<leftarrow>rs. \<Sum>a\<leftarrow>assets r. int_of (download_count a))"
      using that nonneg by (intro member_le_sum_list) auto
    with assms(2) show ?thesis by simp
  qed
  have "\<forall>r\<in>set rs. asset_downloads (assets r)
            = Finite ((\<Sum>a\<leftarrow>assets r. int_of (download_count a)) * 2 ^ scale)
          \<and> 0 \<le> (\<Sum>a\<leftarrow>assets r. int_of (download_count a))"
    using assms(1) each nonneg asset_downloads_sum by blast
  from count_fold [where f = "\<lambda>r. asset_downloads (assets r)" and acc = 0, OF this] assms(2)
  show ?thesis by (simp add: total_downloads_def num_0)
qed

lemma sample_counts:
  "\<forall>r\<in>set [release_v1_1_0, release_v1_0_0]. \<forall>a\<in>set (assets r). is_count (download_count a)"
  "(\<Sum>r\<leftarrow>[release_v1_1_0, release_v1_0_0]. \<Sum>a\<leftarrow>assets r. int_of (download_count a)) = 620"
  by (simp_all add: release_v1_1_0_def release_v1_0_0_def is_count_num int_of_num)

lemma big_fetch:
  "fetch sample_client sample_env big_net (releases_url sample_client) [] =
     Some (Inr [big_release],
       [Request (make_request sample_client sample_env (releases_url sample_client)),
        ReadBody (releases_url sample_client)])"
proof -
  have "fetch sample_client sample_env big_net (releases_url sample_client) [] =
        Some (Inr (flat [JArray [big_release]]),
          [] @ [Request (make_request sample_client sample_env (releases_url sample_client)),
                ReadBody (releases_url sample_client)])"
    by (rule fetch_last_parsed
          [where p = "\<lparr>ok = True, response_headers = [], json = Inr (JArray [big_release])\<rparr>"])
       (simp_all add: big_net_def next_link_def)
  then show ?thesis by (simp add: flat_def)
qed

lemma big_total: "total_downloads [big_release] = num 9007199254740992"
proof -
  have 1: "js_add (num 0) (num 9007199254740992) = num 9007199254740992"
    using js_add_num [of 0 9007199254740992] by simp
  have 2: "js_add (num 9007199254740992) (num 1) = num 9007199254740992"
    using js_add_num [of 9007199254740992 1] by (simp add: num_tie)
  have "asset_downloads (assets big_release) = num 9007199254740992"
    by (simp add: asset_downloads_def big_release_def 1 2)
  then show ?thesis
    by (simp add: total_downloads_def 1)
qed

text \<open>
  Claim C1, as the code has it. Whenever \<open>getAllReleases\<close> returns a list of releases
  whose download counters are non-negative integers with a total of at most \<open>2\<^sup>5\<^sup>3\<close>,
  \<open>getTotalDownloads\<close> returns, after the same effects, the sum over all releases of the
  sum of the \<open>download_count\<close> of every asset. The code computes it with two left folds
  that add numbers starting from zero, and in this range every addition is exact. An
  empty list of releases gives 0, and the contribution of a release without assets
  is 0.
\<close>

theorem getTotalDownloads_sum:
  assumes "getAllReleases c e net tr = Some (Inr rs, tr')"
    and "\<forall>r\<in>set rs. \<forall>a\<in>set (assets r). is_count (download_count a)"
    and "(\<Sum>r\<leftarrow>rs. \<Sum>a\<leftarrow>assets r. int_of (download_count a)) \<le> 2 ^ 53"
  shows "getTotalDownloads c e net tr =
           Some (Inr (num (\<Sum>r\<leftarrow>rs. \<Sum>a\<leftarrow>assets r. int_of (download_count a))), tr')
         \<and> (rs = [] \<longrightarrow> getTotalDownloads c e net tr = Some (Inr (num 0), tr'))
         \<and> (\<forall>r\<in>set rs. assets r = [] \<longrightarrow> asset_downloads (assets r) = num 0)"
proof -
  have "0 \<le> (\<Sum>r\<leftarrow>rs. \<Sum>a\<leftarrow>assets r. int_of (download_count a))"
    using assms(2) count_is_num(2) by (intro sum_list_nonneg) (auto intro!: sum_list_nonneg)
  with assms(3) have "num (\<Sum>r\<leftarrow>rs. \<Sum>a\<leftarrow>assets r. int_of (download_count a))
        = Finite ((\<Sum>r\<leftarrow>rs. \<Sum>a\<leftarrow>assets r. int_of (download_count a)) * 2 ^ scale)"
    by (intro num_exact) simp
  with total_downloads_sum [OF assms(2,3)] assms(1) show ?thesis
    by (auto simp: getTotalDownloads_def and_then_def asset_downloads_def)
qed

theorem getTotalDownloads_sum_witness:
  "getAllReleases sample_client sample_env sample_net [] =
     Some (Inr [release_v1_1_0, release_v1_0_0],
           requests sample_client sample_env [releases_url sample_client, page_url ''2'']
           @ [ReadBody (page_url ''2''), ReadBody (releases_url sample_client)])
   \<and> list_all (\<lambda>r. list_all (\<lambda>a. is_count (download_count a)) (assets r))
        [release_v1_1_0, release_v1_0_0]
   \<and> (\<Sum>r\<leftarrow>[release_v1_1_0, release_v1_0_0]. \<Sum>a\<leftarrow>assets r. int_of (download_count a)) = 620
   \<and> (620::int) \<le> 2 ^ 53
   \<and> getTotalDownloads sample_client sample_env sample_net [] =
     Some (Inr (num 620),
           requests sample_client sample_env [releases_url sample_client, page_url ''2'']
           @ [ReadBody (page_url ''2''), ReadBody (releases_url sample_client)])
   \<and> getAllReleases sample_client sample_env empty_net [] =
     Some (Inr [], [Request (make_request sample_client sample_env (releases_url sample_client)),
                    ReadBody (releases_url sample_client)])
   \<and> getTotalDownloads sample_client sample_env empty_net [] =
     Some (Inr (num 0), [Request (make_request sample_client sample_env (releases_url sample_client)),
                         ReadBody (releases_url sample_client)])"
proof -
  have h: "getAllReleases sample_client sample_env sample_net [] =
     Some (Inr [release_v1_1_0, release_v1_0_0],
           requests sample_client sample_env [releases_url sample_client, page_url ''2'']
           @ [ReadBody (page_url ''2''), ReadBody (releases_url sample_client)])"
    by (simp add: getAllReleases_def and_then_def sample_fetch)
  have b: "(\<Sum>r\<leftarrow>[release_v1_1_0, release_v1_0_0]. \<Sum>a\<leftarrow>assets r. int_of (download_count a)) \<le> 2 ^ 53"
    by (simp only: sample_counts(2)) simp
  have h0: "getAllReleases sample_client sample_env empty_net [] =
     Some (Inr [], [Request (make_request sample_client sample_env (releases_url sample_client)),
                    ReadBody (releases_url sample_client)])"
    by (simp add: getAllReleases_def and_then_def empty_fetch)
  have c: "list_all (\<lambda>r. list_all (\<lambda>a. is_count (download_count a)) (assets r))
        [release_v1_1_0, release_v1_0_0]"
    using sample_counts(1) by (simp add: list_all_iff)
  from getTotalDownloads_sum [OF h sample_counts(1) b]
  have t: "getTotalDownloads sample_client sample_env sample_net [] =
     Some (Inr (num 620),
           requests sample_client sample_env [releases_url sample_client, page_url ''2'']
           @ [ReadBody (page_url ''2''), ReadBody (releases_url sample_client)])"
    by (simp only: sample_counts(2))
  from getTotalDownloads_sum [OF h0]
  have t0: "getTotalDownloads sample_client sample_env empty_net [] =
     Some (Inr (num 0), [Request (make_request sample_client sample_env (releases_url sample_client)),
                         ReadBody (releases_url sample_client)])"
    by simp
  show ?thesis
    using h c sample_counts(2) t h0 t0 by (intro conjI; simp)
qed

text \<open>
  Claim C1 as it is stated has the total equal the sum of the counters for every list of
  releases. The additions are additions of doubles: for one release with counters
  \<open>2\<^sup>5\<^sup>3\<close>, 1 and 1 the sum is 9007199254740994, and the code returns 9007199254740992,
  each \<^verbatim>\<open>+ 1\<close> being rounded away.
\<close>

theorem total_beyond_safe_integers_counterexample:
  "getAllReleases sample_client sample_env big_net [] =
     Some (Inr [big_release],
       [Request (make_request sample_client sample_env (releases_url sample_client)),
        ReadBody (releases_url sample_client)])
   \<and> list_all (\<lambda>a. is_count (download_count a)) (assets big_release)
   \<and> (\<Sum>r\<leftarrow>[big_release]. \<Sum>a\<leftarrow>assets r. int_of (download_count a)) = 9007199254740994
   \<and> getTotalDownloads sample_client sample_env big_net [] =
     Some (Inr (num 9007199254740992),
       [Request (make_request sample_client sample_env (releases_url sample_client)),
        ReadBody (releases_url sample_client)])
   \<and> int_of (num 9007199254740992) = 9007199254740992"
  by (simp add: getAllReleases_def getTotalDownloads_def and_then_def big_fetch big_total
      int_of_num is_count_num)
     (simp add: big_release_def int_of_num is_count_num)

subsection \<open>Pagination\<close>

text \<open>
  Claim C2. For a chain of pages in which every page but the last is a success whose
  link header names a next page, the last page is a success without one, and every
  body parses, \<open>fetch\<close> returns the concatenation of the pages' records in page order,
  the records of the first page first; the length of the result is the sum of the
  numbers of records of the pages.
\<close>

theorem fetch_concatenates_pages:
  assumes "follow c e net tr u ps = Some (us, u1)"
    and "net (tr @ requests c e us) (make_request c e u1) = Resolved p"
    and "ok p" and "next_link p = None"
    and "list_all parses (ps @ [p])"
  shows "\<exists>tr'. fetch c e net u tr = Some (Inr (concat (map records (ps @ [p]))), tr')
           \<and> concat (map records (ps @ [p]))
               = records (hd (ps @ [p])) @ concat (map records (tl (ps @ [p])))
           \<and> length (concat (map records (ps @ [p]))) = sum_list (map (length \<circ> records) (ps @ [p]))"
proof -
  have "concat (map records (ps @ [p]))
        = records (hd (ps @ [p])) @ concat (map records (tl (ps @ [p])))"
    by (cases ps) simp_all
  moreover have "length (concat (map records (ps @ [p])))
        = sum_list (map (length \<circ> records) (ps @ [p]))"
    by (simp add: length_concat comp_def)
  ultimately show ?thesis
    using fetch_chain [where net = net, OF assms] by blast
qed

theorem fetch_concatenates_pages_witness:
  "follow sample_client sample_env sample_net [] (releases_url sample_client) [sample_page1]
     = Some ([releases_url sample_client], page_url ''2'')
   \<and> sample_net ([] @ requests sample_client sample_env [releases_url sample_client])
        (make_request sample_client sample_env (page_url ''2'')) = Resolved sample_page2
   \<and> ok sample_page2 \<and> next_link sample_page2 = None
   \<and> list_all parses ([sample_page1] @ [sample_page2])
   \<and> (\<exists>tr'. fetch sample_client sample_env sample_net (releases_url sample_client) []
              = Some (Inr [release_v1_1_0, release_v1_0_0], tr'))
   \<and> length [release_v1_1_0, release_v1_0_0]
       = sum_list (map (length \<circ> records) ([sample_page1] @ [sample_page2]))"
proof -
  have okp: "ok sample_page2" by (simp add: sample_page2_def)
  from fetch_concatenates_pages [where net = sample_net,
      OF sample_follow sample_page2_served okp sample_link2 sample_pages_parse]
  have "\<exists>tr'. fetch sample_client sample_env sample_net (releases_url sample_client) []
              = Some (Inr [release_v1_1_0, release_v1_0_0], tr')"
    by (simp only: sample_records) blast
  moreover have "length [release_v1_1_0, release_v1_0_0]
       = sum_list (map (length \<circ> records) ([sample_page1] @ [sample_page2]))"
    by (simp add: records_def flat_def sample_page1_def sample_page2_def)
  ultimately show ?thesis
    using sample_follow sample_page2_served okp sample_link2 sample_pages_parse
    by (intro conjI)
qed

lemma multi_page_trace_not_consumed:
  "\<not> consumed_before_next [] (requests c e (u # us @ [u1]) @ es)"
  by (cases us) (simp_all add: requests_def)

text \<open>
  Claim C3, as the code has it. For such a chain \<open>fetch\<close> hands exactly one request per
  page to the transport, in page order, and nothing else happens between two requests:
  the URL of a request is taken from the status and the headers of the response
  before, whose body has not been read at that point. The bodies are read after the
  last page has answered, last page first. A listing of one page takes exactly one
  request, followed by the reading of its body. With more than one page, the trace is
  not one in which every body is read before the next request.
\<close>

theorem fetch_chain_trace:
  assumes "follow c e net tr u ps = Some (us, u1)"
    and "net (tr @ requests c e us) (make_request c e u1) = Resolved p"
    and "ok p" and "next_link p = None"
    and "list_all parses (ps @ [p])"
  shows "\<exists>r. fetch c e net u tr =
               Some (r, tr @ requests c e (us @ [u1]) @ map ReadBody (rev (us @ [u1])))
           \<and> length (us @ [u1]) = length (ps @ [p])
           \<and> (ps = [] \<longrightarrow> fetch c e net u tr = Some (r, tr @ [Request (make_request c e u), ReadBody u]))
           \<and> (ps \<noteq> [] \<longrightarrow>
                \<not> consumed_before_next [] (requests c e (us @ [u1]) @ map ReadBody (rev (us @ [u1]))))"
proof -
  have "\<not> consumed_before_next [] (requests c e (us @ [u1]) @ map ReadBody (rev (us @ [u1])))"
    if "ps \<noteq> []"
  proof -
    from that follow_length [OF assms(1)] obtain a us' where "us = a # us'"
      by (cases us) auto
    then show ?thesis
      using multi_page_trace_not_consumed [of c e a us' u1] by simp
  qed
  then show ?thesis
    using fetch_chain [where net = net, OF assms] follow_length [OF assms(1)] assms(1)
    by (auto simp: requests_def)
qed

theorem fetch_chain_trace_witness:
  "follow sample_client sample_env sample_net [] (releases_url sample_client) [sample_page1]
     = Some ([releases_url sample_client], page_url ''2'')
   \<and> sample_net ([] @ requests sample_client sample_env [releases_url sample_client])
        (make_request sample_client sample_env (page_url ''2'')) = Resolved sample_page2
   \<and> ok sample_page2 \<and> next_link sample_page2 = None
   \<and> list_all parses ([sample_page1] @ [sample_page2])
   \<and> [sample_page1] \<noteq> []
   \<and> (\<exists>r. fetch sample_client sample_env sample_net (releases_url sample_client) [] =
          Some (r, [Request (make_request sample_client sample_env (releases_url sample_client)),
                    Request (make_request sample_client sample_env (page_url ''2'')),
                    ReadBody (page_url ''2''), ReadBody (releases_url sample_client)]))
   \<and> \<not> consumed_before_next []
          [Request (make_request sample_client sample_env (releases_url sample_client)),
           Request (make_request sample_client sample_env (page_url ''2'')),
           ReadBody (page_url ''2''), ReadBody (releases_url sample_client)]
   \<and> follow sample_client sample_env sample_net [] (tag_url sample_client ''v1.0.0'') []
     = Some ([], tag_url sample_client ''v1.0.0'')
   \<and> sample_net ([] @ requests sample_client sample_env [])
        (make_request sample_client sample_env (tag_url sample_client ''v1.0.0'')) = Resolved sample_release
   \<and> ok sample_release \<and> next_link sample_release = None
   \<and> list_all parses ([] @ [sample_release])
   \<and> (\<exists>r. fetch sample_client sample_env sample_net (tag_url sample_client ''v1.0.0'') [] =
          Some (r, [Request (make_request sample_client sample_env (tag_url sample_client ''v1.0.0'')),
                    ReadBody (tag_url sample_client ''v1.0.0'')]))"
proof -
  have okp: "ok sample_page2" by (simp add: sample_page2_def)
  have f: "follow sample_client sample_env sample_net [] (tag_url sample_client ''v1.0.0'') []
     = Some ([], tag_url sample_client ''v1.0.0'')" by simp
  from fetch_chain_trace [where net = sample_net,
      OF sample_follow sample_page2_served okp sample_link2 sample_pages_parse]
  have two: "(\<exists>r. fetch sample_client sample_env sample_net (releases_url sample_client) [] =
          Some (r, [Request (make_request sample_client sample_env (releases_url sample_client)),
                    Request (make_request sample_client sample_env (page_url ''2'')),
                    ReadBody (page_url ''2''), ReadBody (releases_url sample_client)]))
   \<and> \<not> consumed_before_next []
          [Request (make_request sample_client sample_env (releases_url sample_client)),
           Request (make_request sample_client sample_env (page_url ''2'')),
           ReadBody (page_url ''2''), ReadBody (releases_url sample_client)]"
    by (auto simp: requests_def)
  from fetch_chain_trace [where net = sample_net,
      OF f sample_release_served sample_release_shape(1,2,4)]
  have one: "\<exists>r. fetch sample_client sample_env sample_net (tag_url sample_client ''v1.0.0'') [] =
          Some (r, [Request (make_request sample_client sample_env (tag_url sample_client ''v1.0.0'')),
                    ReadBody (tag_url sample_client ''v1.0.0'')])"
    by (auto simp: requests_def)
  show ?thesis
    using sample_follow sample_page2_served okp sample_link2 sample_pages_parse two
      f sample_release_served sample_release_shape(1,2,4) one
    by (intro conjI) simp_all
qed

text \<open>
  Claim C3 as it is stated has every request wait until the response before it is
  fully consumed. On the two pages of the sample repository the request for the second
  page goes out before the body of the first page is read: \<^verbatim>\<open>await response.json()\<close>
  stands after the recursive call.
\<close>

theorem body_read_after_next_request_counterexample:
  "fetch sample_client sample_env sample_net (releases_url sample_client) [] =
     Some (Inr [release_v1_1_0, release_v1_0_0],
           [Request (make_request sample_client sample_env (releases_url sample_client)),
            Request (make_request sample_client sample_env (page_url ''2'')),
            ReadBody (page_url ''2''), ReadBody (releases_url sample_client)])
   \<and> \<not> consumed_before_next []
          [Request (make_request sample_client sample_env (releases_url sample_client)),
           Request (make_request sample_client sample_env (page_url ''2'')),
           ReadBody (page_url ''2''), ReadBody (releases_url sample_client)]"
  by (simp add: sample_fetch requests_def)

subsection \<open>Errors\<close>

text \<open>
  Claim C4. When a response (the first, or one reached along a chain of pages) is not
  a success and its body is a JSON object with a \<open>message\<close>, \<open>fetch\<close> fails with a
  \<^verbatim>\<open>GithubError\<close> whose message is exactly that message and whose name is
  \<^verbatim>\<open>GithubError\<close>, and so does every query that made the call.
\<close>

theorem github_error_message:
  assumes "follow c e net tr u ps = Some (us, u1)"
    and "net (tr @ requests c e us) (make_request c e u1) = Resolved p"
    and "\<not> ok p" and "json p = Inr (JObject obj)" and "message obj = Some m"
  shows "fetch c e net u tr =
           Some (Inl (GithubError (Some m)), tr @ requests c e (us @ [u1]) @ [ReadBody u1])
         \<and> err_name (GithubError (Some m)) = ''GithubError''
         \<and> err_message (GithubError (Some m)) = m
         \<and> (u = releases_url c \<longrightarrow>
              getAllReleases c e net tr =
                Some (Inl (GithubError (Some m)), tr @ requests c e (us @ [u1]) @ [ReadBody u1])
              \<and> getTotalDownloads c e net tr =
                Some (Inl (GithubError (Some m)), tr @ requests c e (us @ [u1]) @ [ReadBody u1]))
         \<and> (\<forall>tag. u = tag_url c tag \<longrightarrow>
              getRelease c e net tag tr =
                Some (Inl (GithubError (Some m)), tr @ requests c e (us @ [u1]) @ [ReadBody u1])
              \<and> getReleaseDownloads c e net tag tr =
                Some (Inl (GithubError (Some m)), tr @ requests c e (us @ [u1]) @ [ReadBody u1]))
         \<and> (u = latest_url c \<longrightarrow>
              getLatestRelease c e net tr =
                Some (Inl (GithubError (Some m)), tr @ requests c e (us @ [u1]) @ [ReadBody u1])
              \<and> getLatestReleaseDownloads c e net tr =
                Some (Inl (GithubError (Some m)), tr @ requests c e (us @ [u1]) @ [ReadBody u1]))"
proof -
  have "fetch c e net u1 (tr @ requests c e us) =
        Some (Inl (GithubError (Some m)), (tr @ requests c e us) @ [Request (make_request c e u1), ReadBody u1])"
    using fetch_not_ok [where net = net, OF assms(2,3)]
    by (simp add: assms(4,5) message_of_def)
  then have "fetch c e net u1 (tr @ requests c e us) =
        Some (Inl (GithubError (Some m)), tr @ requests c e (us @ [u1]) @ [ReadBody u1])"
    by (simp add: requests_def)
  from fetch_chain_error [OF assms(1) this]
  have f: "fetch c e net u tr =
        Some (Inl (GithubError (Some m)), tr @ requests c e (us @ [u1]) @ [ReadBody u1])" .
  from f show ?thesis
    by (auto simp: getAllReleases_def getTotalDownloads_def getRelease_def getReleaseDownloads_def
        getLatestRelease_def getLatestReleaseDownloads_def and_then_def GithubError_def Error_def)
qed

theorem github_error_message_witness:
  "follow sample_client sample_env missing_net [] (tag_url sample_client ''v9.9.9'') []
     = Some ([], tag_url sample_client ''v9.9.9'')
   \<and> missing_net ([] @ requests sample_client sample_env [])
        (make_request sample_client sample_env (tag_url sample_client ''v9.9.9'')) = Resolved sample_not_found
   \<and> \<not> ok sample_not_found
   \<and> json sample_not_found = Inr (JObject \<lparr>message = Some ''Not Found'', assets = []\<rparr>)
   \<and> message \<lparr>message = Some ''Not Found'', assets = []\<rparr> = Some ''Not Found''
   \<and> getRelease sample_client sample_env missing_net ''v9.9.9'' [] =
       Some (Inl (JsError ''GithubError'' ''Not Found''),
             [Request (make_request sample_client sample_env (tag_url sample_client ''v9.9.9'')),
              ReadBody (tag_url sample_client ''v9.9.9'')])
   \<and> getReleaseDownloads sample_client sample_env missing_net ''v9.9.9'' [] =
       Some (Inl (JsError ''GithubError'' ''Not Found''),
             [Request (make_request sample_client sample_env (tag_url sample_client ''v9.9.9'')),
              ReadBody (tag_url sample_client ''v9.9.9'')])
   \<and> getAllReleases sample_client sample_env missing_net [] =
       Some (Inl (JsError ''GithubError'' ''Not Found''),
             [Request (make_request sample_client sample_env (releases_url sample_client)),
              ReadBody (releases_url sample_client)])
   \<and> getTotalDownloads sample_client sample_env missing_net [] =
       Some (Inl (JsError ''GithubError'' ''Not Found''),
             [Request (make_request sample_client sample_env (releases_url sample_client)),
              ReadBody (releases_url sample_client)])
   \<and> getLatestRelease sample_client sample_env missing_net [] =
       Some (Inl (JsError ''GithubError'' ''Not Found''),
             [Request (make_request sample_client sample_env (latest_url sample_client)),
              ReadBody (latest_url sample_client)])
   \<and> getLatestReleaseDownloads sample_client sample_env missing_net [] =
       Some (Inl (JsError ''GithubError'' ''Not Found''),
             [Request (make_request sample_client sample_env (latest_url sample_client)),
              ReadBody (latest_url sample_client)])"
proof -
  have f: "follow sample_client sample_env missing_net [] u [] = Some ([], u)" for u by simp
  have n: "missing_net ([] @ requests sample_client sample_env [])
             (make_request sample_client sample_env u) = Resolved sample_not_found" for u
    by (simp add: missing_net_def)
  note inst = github_error_message [where net = missing_net, OF f n missing_shape]
  have g: "GithubError (Some ''Not Found'') = JsError ''GithubError'' ''Not Found''"
    by (simp add: GithubError_def Error_def)
  show ?thesis
    using inst [of "tag_url sample_client ''v9.9.9''"] inst [of "releases_url sample_client"]
      inst [of "latest_url sample_client"] f n missing_shape
    by (simp add: requests_def g)
qed

text \<open>
  Claim C5. After any number of pages that link onward, let a fault happen: the
  transport rejects the call for the next page; or the body of the next response does
  not parse, on an error response, on a last page, or on a page whose following pages
  have been fetched; or the call of \<open>fetch\<close> for the next page ends with an error for any
  reason. Then \<open>fetch\<close> fails with that very error, after one request per page and no
  other, and so do the queries that made the call, \<open>getAllReleases\<close> and
  \<open>getTotalDownloads\<close>, \<open>getRelease\<close> and \<open>getReleaseDownloads\<close>, \<open>getLatestRelease\<close> and
  \<open>getLatestReleaseDownloads\<close>: the caller gets the error as it is, and no records and
  no count of the pages before.
\<close>

theorem fault_propagates:
  assumes "follow c e net tr u ps = Some (us, u1)"
    and "(net (tr @ requests c e us) (make_request c e u1) = Rejected err
            \<and> T = tr @ requests c e (us @ [u1]))
       \<or> (\<exists>p. net (tr @ requests c e us) (make_request c e u1) = Resolved p \<and> json p = Inl err
                \<and> (ok p \<longrightarrow> next_link p = None)
                \<and> T = tr @ requests c e (us @ [u1]) @ [ReadBody u1])
       \<or> (\<exists>p u2 rest tr2.
              net (tr @ requests c e us) (make_request c e u1) = Resolved p \<and> ok p
              \<and> json p = Inl err \<and> next_link p = Some u2
              \<and> fetch c e net u2 (tr @ requests c e (us @ [u1])) = Some (Inr rest, tr2)
              \<and> T = tr2 @ [ReadBody u1])
       \<or> fetch c e net u1 (tr @ requests c e us) = Some (Inl err, T)"
  shows "fetch c e net u tr = Some (Inl err, T)
       \<and> (u = releases_url c \<longrightarrow>
            getAllReleases c e net tr = Some (Inl err, T)
            \<and> getTotalDownloads c e net tr = Some (Inl err, T))
       \<and> (\<forall>tag. u = tag_url c tag \<longrightarrow>
            getRelease c e net tag tr = Some (Inl err, T)
            \<and> getReleaseDownloads c e net tag tr = Some (Inl err, T))
       \<and> (u = latest_url c \<longrightarrow>
            getLatestRelease c e net tr = Some (Inl err, T)
            \<and> getLatestReleaseDownloads c e net tr = Some (Inl err, T))"
proof -
  have later: "fetch c e net u1 (tr @ requests c e us) = Some (Inl err, T)"
    using assms(2)
  proof (elim disjE exE conjE)
    assume "net (tr @ requests c e us) (make_request c e u1) = Rejected err"
      and T: "T = tr @ requests c e (us @ [u1])"
    from fetch_rejected [where net = net, OF this(1)] T show ?thesis
      by (simp add: requests_def)
  next
    fix p
    assume p: "net (tr @ requests c e us) (make_request c e u1) = Resolved p"
      and j: "json p = Inl err" and l: "ok p \<longrightarrow> next_link p = None"
      and T: "T = tr @ requests c e (us @ [u1]) @ [ReadBody u1]"
    show ?thesis
    proof (cases "ok p")
      case True
      with l have "next_link p = None" by simp
      from fetch_last [where net = net, OF p True this] j T show ?thesis
        by (simp add: unshift_page_def requests_def)
    next
      case False
      from fetch_not_ok [where net = net, OF p False] j T show ?thesis
        by (simp add: requests_def)
    qed
  next
    fix p u2 rest tr2
    assume p: "net (tr @ requests c e us) (make_request c e u1) = Resolved p" and okp: "ok p"
      and j: "json p = Inl err" and l: "next_link p = Some u2"
      and f: "fetch c e net u2 (tr @ requests c e (us @ [u1])) = Some (Inr rest, tr2)"
      and T: "T = tr2 @ [ReadBody u1]"
    from f have "fetch c e net u2 ((tr @ requests c e us) @ [Request (make_request c e u1)])
                 = Some (Inr rest, tr2)"
      by (simp add: requests_def)
    with fetch_next [where net = net, OF p okp l] j T show ?thesis
      by (simp add: unshift_page_def)
  next
    assume "fetch c e net u1 (tr @ requests c e us) = Some (Inl err, T)"
    then show ?thesis .
  qed
  from fetch_chain_error [OF assms(1) later] show ?thesis
    by (auto simp: getAllReleases_def getTotalDownloads_def getRelease_def getReleaseDownloads_def
        getLatestRelease_def getLatestReleaseDownloads_def and_then_def)
qed

theorem fault_propagates_witness:
  "follow sample_client sample_env offline_net [] (releases_url sample_client) []
     = Some ([], releases_url sample_client)
   \<and> offline_net ([] @ requests sample_client sample_env [])
        (make_request sample_client sample_env (releases_url sample_client)) = Rejected network_error
   \<and> getAllReleases sample_client sample_env offline_net [] =
       Some (Inl network_error,
         [Request (make_request sample_client sample_env (releases_url sample_client))])
   \<and> getTotalDownloads sample_client sample_env offline_net [] =
       Some (Inl network_error,
         [Request (make_request sample_client sample_env (releases_url sample_client))])
   \<and> follow sample_client sample_env broken_net [] (releases_url sample_client) [sample_page1]
     = Some ([releases_url sample_client], page_url ''2'')
   \<and> broken_net ([] @ requests sample_client sample_env [releases_url sample_client])
        (make_request sample_client sample_env (page_url ''2'')) = Rejected network_error
   \<and> fetch sample_client sample_env broken_net (page_url ''2'')
        ([] @ requests sample_client sample_env [releases_url sample_client])
      = Some (Inl network_error,
          [Request (make_request sample_client sample_env (releases_url sample_client)),
           Request (make_request sample_client sample_env (page_url ''2''))])
   \<and> fetch sample_client sample_env broken_net (releases_url sample_client) []
      = Some (Inl network_error,
          [Request (make_request sample_client sample_env (releases_url sample_client)),
           Request (make_request sample_client sample_env (page_url ''2''))])
   \<and> getAllReleases sample_client sample_env broken_net []
      = Some (Inl network_error,
          [Request (make_request sample_client sample_env (releases_url sample_client)),
           Request (make_request sample_client sample_env (page_url ''2''))])
   \<and> getTotalDownloads sample_client sample_env broken_net []
      = Some (Inl network_error,
          [Request (make_request sample_client sample_env (releases_url sample_client)),
           Request (make_request sample_client sample_env (page_url ''2''))])
   \<and> truncated_net ([] @ requests sample_client sample_env [])
        (make_request sample_client sample_env (tag_url sample_client ''v1.0.0''))
      = Resolved (sample_page2\<lparr>json := Inl syntax_error\<rparr>)
   \<and> truncated_net ([] @ requests sample_client sample_env [])
        (make_request sample_client sample_env (latest_url sample_client))
      = Resolved (sample_page2\<lparr>json := Inl syntax_error\<rparr>)
   \<and> json (sample_page2\<lparr>json := Inl syntax_error\<rparr>) = Inl syntax_error
   \<and> ok (sample_page2\<lparr>json := Inl syntax_error\<rparr>)
   \<and> next_link (sample_page2\<lparr>json := Inl syntax_error\<rparr>) = None
   \<and> getRelease sample_client sample_env truncated_net ''v1.0.0'' []
      = Some (Inl syntax_error,
          [Request (make_request sample_client sample_env (tag_url sample_client ''v1.0.0'')),
           ReadBody (tag_url sample_client ''v1.0.0'')])
   \<and> getReleaseDownloads sample_client sample_env truncated_net ''v1.0.0'' []
      = Some (Inl syntax_error,
          [Request (make_request sample_client sample_env (tag_url sample_client ''v1.0.0'')),
           ReadBody (tag_url sample_client ''v1.0.0'')])
   \<and> getLatestRelease sample_client sample_env truncated_net []
      = Some (Inl syntax_error,
          [Request (make_request sample_client sample_env (latest_url sample_client)),
           ReadBody (latest_url sample_client)])
   \<and> getLatestReleaseDownloads sample_client sample_env truncated_net []
      = Some (Inl syntax_error,
          [Request (make_request sample_client sample_env (latest_url sample_client)),
           ReadBody (latest_url sample_client)])
   \<and> garbled_net ([] @ requests sample_client sample_env [])
        (make_request sample_client sample_env (releases_url sample_client))
      = Resolved (sample_page1\<lparr>json := Inl syntax_error\<rparr>)
   \<and> ok (sample_page1\<lparr>json := Inl syntax_error\<rparr>)
   \<and> json (sample_page1\<lparr>json := Inl syntax_error\<rparr>) = Inl syntax_error
   \<and> next_link (sample_page1\<lparr>json := Inl syntax_error\<rparr>) = Some (page_url ''2'')
   \<and> fetch sample_client sample_env garbled_net (page_url ''2'')
        ([] @ requests sample_client sample_env ([] @ [releases_url sample_client]))
      = Some (Inr [release_v1_0_0],
          [Request (make_request sample_client sample_env (releases_url sample_client)),
           Request (make_request sample_client sample_env (page_url ''2'')),
           ReadBody (page_url ''2'')])
   \<and> getAllReleases sample_client sample_env garbled_net []
      = Some (Inl syntax_error,
          [Request (make_request sample_client sample_env (releases_url sample_client)),
           Request (make_request sample_client sample_env (page_url ''2'')),
           ReadBody (page_url ''2''), ReadBody (releases_url sample_client)])
   \<and> getTotalDownloads sample_client sample_env garbled_net []
      = Some (Inl syntax_error,
          [Request (make_request sample_client sample_env (releases_url sample_client)),
           Request (make_request sample_client sample_env (page_url ''2'')),
           ReadBody (page_url ''2''), ReadBody (releases_url sample_client)])"
proof -
  have f0: "follow sample_client sample_env net [] u [] = Some ([], u)" for net u by simp
  have off: "offline_net ([] @ requests sample_client sample_env [])
        (make_request sample_client sample_env (releases_url sample_client)) = Rejected network_error"
    by (simp add: offline_net_def)
  have t: "truncated_net ([] @ requests sample_client sample_env [])
        (make_request sample_client sample_env u)
      = Resolved (sample_page2\<lparr>json := Inl syntax_error\<rparr>)" for u
    by (simp add: truncated_net_def)
  have tp: "json (sample_page2\<lparr>json := Inl syntax_error\<rparr>) = Inl syntax_error"
    "ok (sample_page2\<lparr>json := Inl syntax_error\<rparr>)"
    "next_link (sample_page2\<lparr>json := Inl syntax_error\<rparr>) = None"
    by (simp_all add: next_link_json_update sample_link2) (simp add: sample_page2_def)
  have g: "garbled_net ([] @ requests sample_client sample_env [])
        (make_request sample_client sample_env (releases_url sample_client))
      = Resolved (sample_page1\<lparr>json := Inl syntax_error\<rparr>)"
    by (simp add: garbled_net_def make_request_def sample_releases_url)
  have gp: "ok (sample_page1\<lparr>json := Inl syntax_error\<rparr>)"
    "json (sample_page1\<lparr>json := Inl syntax_error\<rparr>) = Inl syntax_error"
    "next_link (sample_page1\<lparr>json := Inl syntax_error\<rparr>) = Some (page_url ''2'')"
    by (simp_all add: next_link_json_update sample_link1) (simp add: sample_page1_def)
  have b0: "fetch sample_client sample_env broken_net (page_url ''2'')
        ([] @ requests sample_client sample_env [releases_url sample_client])
      = Some (Inl network_error,
          [Request (make_request sample_client sample_env (releases_url sample_client)),
           Request (make_request sample_client sample_env (page_url ''2''))])"
    using fetch_rejected [where net = broken_net, OF broken_rejects] by (simp add: requests_def)
  have offline: "getAllReleases sample_client sample_env offline_net [] =
       Some (Inl network_error,
         [Request (make_request sample_client sample_env (releases_url sample_client))])
     \<and> getTotalDownloads sample_client sample_env offline_net [] =
       Some (Inl network_error,
         [Request (make_request sample_client sample_env (releases_url sample_client))])"
    using fault_propagates [where net = offline_net and err = network_error
        and T = "[Request (make_request sample_client sample_env (releases_url sample_client))]",
        OF f0 [of offline_net "releases_url sample_client"]] off
    by (simp add: requests_def)
  have broken: "fetch sample_client sample_env broken_net (releases_url sample_client) []
      = Some (Inl network_error,
          [Request (make_request sample_client sample_env (releases_url sample_client)),
           Request (make_request sample_client sample_env (page_url ''2''))])
     \<and> getAllReleases sample_client sample_env broken_net []
      = Some (Inl network_error,
          [Request (make_request sample_client sample_env (releases_url sample_client)),
           Request (make_request sample_client sample_env (page_url ''2''))])
     \<and> getTotalDownloads sample_client sample_env broken_net []
      = Some (Inl network_error,
          [Request (make_request sample_client sample_env (releases_url sample_client)),
           Request (make_request sample_client sample_env (page_url ''2''))])"
    using fault_propagates [where net = broken_net and err = network_error
        and T = "[Request (make_request sample_client sample_env (releases_url sample_client)),
                  Request (make_request sample_client sample_env (page_url ''2''))]",
        OF broken_follow] b0
    by simp
  have tagged: "getRelease sample_client sample_env truncated_net ''v1.0.0'' []
      = Some (Inl syntax_error,
          [Request (make_request sample_client sample_env (tag_url sample_client ''v1.0.0'')),
           ReadBody (tag_url sample_client ''v1.0.0'')])
     \<and> getReleaseDownloads sample_client sample_env truncated_net ''v1.0.0'' []
      = Some (Inl syntax_error,
          [Request (make_request sample_client sample_env (tag_url sample_client ''v1.0.0'')),
           ReadBody (tag_url sample_client ''v1.0.0'')])"
    using fault_propagates [where net = truncated_net and err = syntax_error
        and T = "[Request (make_request sample_client sample_env (tag_url sample_client ''v1.0.0'')),
                  ReadBody (tag_url sample_client ''v1.0.0'')]",
        OF f0 [of truncated_net "tag_url sample_client ''v1.0.0''"]] t tp
    by (simp add: requests_def)
  have latest: "getLatestRelease sample_client sample_env truncated_net []
      = Some (Inl syntax_error,
          [Request (make_request sample_client sample_env (latest_url sample_client)),
           ReadBody (latest_url sample_client)])
     \<and> getLatestReleaseDownloads sample_client sample_env truncated_net []
      = Some (Inl syntax_error,
          [Request (make_request sample_client sample_env (latest_url sample_client)),
           ReadBody (latest_url sample_client)])"
    using fault_propagates [where net = truncated_net and err = syntax_error
        and T = "[Request (make_request sample_client sample_env (latest_url sample_client)),
                  ReadBody (latest_url sample_client)]",
        OF f0 [of truncated_net "latest_url sample_client"]] t tp
    by (simp add: requests_def)
  have garbled: "getAllReleases sample_client sample_env garbled_net []
      = Some (Inl syntax_error,
          [Request (make_request sample_client sample_env (releases_url sample_client)),
           Request (make_request sample_client sample_env (page_url ''2'')),
           ReadBody (page_url ''2''), ReadBody (releases_url sample_client)])
     \<and> getTotalDownloads sample_client sample_env garbled_net []
      = Some (Inl syntax_error,
          [Request (make_request sample_client sample_env (releases_url sample_client)),
           Request (make_request sample_client sample_env (page_url ''2'')),
           ReadBody (page_url ''2''), ReadBody (releases_url sample_client)])"
    using fault_propagates [where net = garbled_net and err = syntax_error
        and T = "[Request (make_request sample_client sample_env (releases_url sample_client)),
           Request (make_request sample_client sample_env (page_url ''2'')),
           ReadBody (page_url ''2''), ReadBody (releases_url sample_client)]",
        OF f0 [of garbled_net "releases_url sample_client"]] g gp garbled_second_page
    by simp
  show ?thesis
    using f0 off offline broken_follow broken_rejects b0 broken t tp tagged latest
      g gp garbled_second_page garbled
    by (intro conjI; simp)
qed

subsection \<open>Requests\<close>

text \<open>
  Claim C7. Every request that a returning call of \<open>fetch\<close> adds to the trace is a GET
  without a body whose headers are those of \<open>request_headers\<close>: an \<^verbatim>\<open>Authorization\<close>
  header \<^verbatim>\<open>token <credential>\<close> exactly when the credential is not empty, a
  \<^verbatim>\<open>User-Agent\<close> header exactly when \<^verbatim>\<open>self\<close> is undefined, and no header of another
  name.
\<close>

theorem request_shape:
  assumes "fetch c e net u tr = Some (r, tr')"
  shows "(\<exists>sent. tr' = tr @ sent
            \<and> (\<forall>req. Request req \<in> set sent \<longrightarrow>
                  http_method req = ''GET'' \<and> body req = None \<and> headers req = request_headers c e))
       \<and> (\<forall>u'. http_method (make_request c e u') = ''GET'' \<and> body (make_request c e u') = None
                \<and> headers (make_request c e u') = request_headers c e)
       \<and> map_of (request_headers c e) ''Authorization'' =
           (if token c = '''' then None else Some (''token '' @ token c))
       \<and> map_of (request_headers c e) ''User-Agent'' =
           (if self_defined e then None else Some ''github-release-stats'')
       \<and> set (map fst (request_headers c e)) \<subseteq> {''User-Agent'', ''Authorization''}
       \<and> distinct (map fst (request_headers c e))"
proof -
  from fetch_sends [OF assms] obtain sent where
    "tr' = tr @ sent" and "\<forall>req. Request req \<in> set sent \<longrightarrow> (\<exists>u'. req = make_request c e u')"
    by auto
  then have "\<exists>sent. tr' = tr @ sent
            \<and> (\<forall>req. Request req \<in> set sent \<longrightarrow>
                  http_method req = ''GET'' \<and> body req = None \<and> headers req = request_headers c e)"
    by (auto simp: make_request_def)
  moreover have "\<forall>u'. http_method (make_request c e u') = ''GET'' \<and> body (make_request c e u') = None
                \<and> headers (make_request c e u') = request_headers c e"
    by (simp add: make_request_def)
  ultimately show ?thesis
    using request_headers_shape [of c e] by blast
qed

theorem request_shape_witness:
  "fetch token_client sample_env empty_net (releases_url token_client) [] =
     Some (Inr [],
       [Request \<lparr>url = ''https://api.github.com/repos/foo/bar/releases?per_page=100'',
                 http_method = ''GET'',
                 headers = [(''User-Agent'', ''github-release-stats''), (''Authorization'', ''token secret'')],
                 body = None\<rparr>,
        ReadBody ''https://api.github.com/repos/foo/bar/releases?per_page=100''])
   \<and> (\<exists>sent.
        [Request \<lparr>url = ''https://api.github.com/repos/foo/bar/releases?per_page=100'',
                  http_method = ''GET'',
                  headers = [(''User-Agent'', ''github-release-stats''), (''Authorization'', ''token secret'')],
                  body = None\<rparr>,
         ReadBody ''https://api.github.com/repos/foo/bar/releases?per_page=100''] = [] @ sent
        \<and> (\<forall>req. Request req \<in> set sent \<longrightarrow>
              http_method req = ''GET'' \<and> body req = None
              \<and> headers req = [(''User-Agent'', ''github-release-stats''), (''Authorization'', ''token secret'')]))
   \<and> map_of (request_headers token_client sample_env) ''Authorization'' = Some ''token secret''
   \<and> map_of (request_headers token_client sample_env) ''User-Agent'' = Some ''github-release-stats''
   \<and> map_of (request_headers sample_client sample_env) ''Authorization'' = None
   \<and> map_of (request_headers sample_client \<lparr>self_defined = True, GITHUB_TOKEN = None\<rparr>) ''User-Agent'' = None"
proof -
  have h: "request_headers token_client sample_env
           = [(''User-Agent'', ''github-release-stats''), (''Authorization'', ''token secret'')]"
    by (simp add: request_headers_def token_client_def new_GithubStats_def sample_env_def)
  have t: "token token_client = ''secret''" "token sample_client = ''''" "\<not> self_defined sample_env"
    by (simp_all add: token_client_def sample_client_def new_GithubStats_def sample_env_def truthy_def)
  from request_shape [OF token_fetch] request_shape [OF sample_fetch]
  show ?thesis
    by (simp add: token_fetch h t request_headers_def)
qed

subsection \<open>Single resources\<close>

text \<open>
  Claim C8. A successful response without a next page is normalised to a list: a
  lone object becomes the list of that object, an array is taken as it is.
  \<open>getRelease\<close> and \<open>getLatestRelease\<close> return the sole element of the list that a lone
  object gives.
\<close>

theorem single_resource_unwrapped:
  assumes "net tr (make_request c e u) = Resolved p" and "ok p" and "next_link p = None"
    and "json p = Inr v"
  shows "fetch c e net u tr =
           Some (Inr (case v of JObject x \<Rightarrow> [x] | JArray xs \<Rightarrow> xs),
                 tr @ [Request (make_request c e u), ReadBody u])
       \<and> (\<forall>x tag. v = JObject x \<and> u = tag_url c tag \<longrightarrow>
             getRelease c e net tag tr =
               Some (Inr (Some x), tr @ [Request (make_request c e u), ReadBody u]))
       \<and> (\<forall>x. v = JObject x \<and> u = latest_url c \<longrightarrow>
             getLatestRelease c e net tr =
               Some (Inr (Some x), tr @ [Request (make_request c e u), ReadBody u]))"
proof -
  have f: "fetch c e net u tr =
           Some (Inr (case v of JObject x \<Rightarrow> [x] | JArray xs \<Rightarrow> xs),
                 tr @ [Request (make_request c e u), ReadBody u])"
    using fetch_last_parsed [where net = net, OF assms]
    by (simp add: flat_def split: json_value.splits)
  then show ?thesis
    by (auto simp: getRelease_def getLatestRelease_def and_then_def first_element_def)
qed

theorem single_resource_unwrapped_witness:
  "sample_net [] (make_request sample_client sample_env (tag_url sample_client ''v1.0.0''))
     = Resolved sample_release
   \<and> sample_net [] (make_request sample_client sample_env (latest_url sample_client))
     = Resolved sample_release
   \<and> ok sample_release \<and> next_link sample_release = None
   \<and> json sample_release = Inr (JObject release_v1_0_0)
   \<and> fetch sample_client sample_env sample_net (tag_url sample_client ''v1.0.0'') [] =
       Some (Inr [release_v1_0_0],
             [Request (make_request sample_client sample_env (tag_url sample_client ''v1.0.0'')),
              ReadBody (tag_url sample_client ''v1.0.0'')])
   \<and> getRelease sample_client sample_env sample_net ''v1.0.0'' [] =
       Some (Inr (Some release_v1_0_0),
             [Request (make_request sample_client sample_env (tag_url sample_client ''v1.0.0'')),
              ReadBody (tag_url sample_client ''v1.0.0'')])
   \<and> getLatestRelease sample_client sample_env sample_net [] =
       Some (Inr (Some release_v1_0_0),
             [Request (make_request sample_client sample_env (latest_url sample_client)),
              ReadBody (latest_url sample_client)])"
proof -
  have t: "sample_net [] (make_request sample_client sample_env (tag_url sample_client ''v1.0.0''))
     = Resolved sample_release"
    using sample_release_served by (simp add: requests_def)
  have l: "sample_net [] (make_request sample_client sample_env (latest_url sample_client))
     = Resolved sample_release"
    using sample_latest_served by (simp add: requests_def)
  from single_resource_unwrapped [where net = sample_net, OF t sample_release_shape(1,2,3)]
    single_resource_unwrapped [where net = sample_net, OF l sample_release_shape(1,2,3)]
  show ?thesis
    using t l sample_release_shape(1,2,3) by simp
qed

text \<open>
  Claim C9. When the fetcher returns the empty list, \<open>getRelease\<close> and
  \<open>getLatestRelease\<close> return \<^verbatim>\<open>undefined\<close> and no error, and \<open>getReleaseDownloads\<close> and
  \<open>getLatestReleaseDownloads\<close> fail with the \<^verbatim>\<open>TypeError\<close> of reading \<^verbatim>\<open>assets\<close> of
  \<^verbatim>\<open>undefined\<close>.
\<close>

theorem empty_array_undefined:
  "(fetch c e net (tag_url c tag) tr = Some (Inr [], tr') \<longrightarrow>
      getRelease c e net tag tr = Some (Inr None, tr')
      \<and> getReleaseDownloads c e net tag tr = Some (Inl (undefined_property ''assets''), tr'))
   \<and> (fetch c e net (latest_url c) tr = Some (Inr [], tr') \<longrightarrow>
      getLatestRelease c e net tr = Some (Inr None, tr')
      \<and> getLatestReleaseDownloads c e net tr = Some (Inl (undefined_property ''assets''), tr'))
   \<and> err_name (undefined_property ''assets'') = ''TypeError''"
  by (simp add: getRelease_def getReleaseDownloads_def getLatestRelease_def
      getLatestReleaseDownloads_def and_then_def first_element_def release_downloads_def
      undefined_property_def)

theorem empty_array_undefined_witness:
  "fetch sample_client sample_env empty_net (tag_url sample_client ''v1.0.0'') [] =
     Some (Inr [], [Request (make_request sample_client sample_env (tag_url sample_client ''v1.0.0'')),
                    ReadBody (tag_url sample_client ''v1.0.0'')])
   \<and> getRelease sample_client sample_env empty_net ''v1.0.0'' [] =
     Some (Inr None, [Request (make_request sample_client sample_env (tag_url sample_client ''v1.0.0'')),
                      ReadBody (tag_url sample_client ''v1.0.0'')])
   \<and> getReleaseDownloads sample_client sample_env empty_net ''v1.0.0'' [] =
     Some (Inl (JsError ''TypeError'' (''Cannot read properties of undefined (reading '' @ [CHR 0x27] @ ''assets'' @ [CHR 0x27] @ '')'')),
           [Request (make_request sample_client sample_env (tag_url sample_client ''v1.0.0'')),
            ReadBody (tag_url sample_client ''v1.0.0'')])
   \<and> fetch sample_client sample_env empty_net (latest_url sample_client) [] =
     Some (Inr [], [Request (make_request sample_client sample_env (latest_url sample_client)),
                    ReadBody (latest_url sample_client)])
   \<and> getLatestRelease sample_client sample_env empty_net [] =
     Some (Inr None, [Request (make_request sample_client sample_env (latest_url sample_client)),
                      ReadBody (latest_url sample_client)])
   \<and> getLatestReleaseDownloads sample_client sample_env empty_net [] =
     Some (Inl (JsError ''TypeError'' (''Cannot read properties of undefined (reading '' @ [CHR 0x27] @ ''assets'' @ [CHR 0x27] @ '')'')),
           [Request (make_request sample_client sample_env (latest_url sample_client)),
            ReadBody (latest_url sample_client)])"
  using empty_array_undefined [of sample_client sample_env empty_net "''v1.0.0''" "[]"
      "[Request (make_request sample_client sample_env (tag_url sample_client ''v1.0.0'')),
        ReadBody (tag_url sample_client ''v1.0.0'')]"]
    empty_array_undefined [of sample_client sample_env empty_net "''v1.0.0''" "[]"
      "[Request (make_request sample_client sample_env (latest_url sample_client)),
        ReadBody (latest_url sample_client)]"]
  by (simp add: empty_fetch undefined_property_def)

subsection \<open>The credential\<close>

text \<open>
  Claim C6, as the code has it. The credential is resolved in the constructor: a token
  parameter that is given and not empty is the credential; otherwise, outside a
  browser-like host, it is the token of the environment; otherwise it is empty. The
  client is a value: no operation of the model takes or returns a changed client, so
  the credential stays what the constructor made it.
\<close>

theorem credential_resolution:
  "token (new_GithubStats e owner name tok) =
     (if truthy tok then the tok
      else if self_defined e then ''''
      else (case GITHUB_TOKEN e of None \<Rightarrow> '''' | Some g \<Rightarrow> g))"
  by (auto simp: new_GithubStats_def truthy_def split: option.splits)

text \<open>
  Claim C6 as it is stated lets every explicitly supplied token win over the
  environment. An empty string passed explicitly does not: outside a browser-like
  host, with \<^verbatim>\<open>GITHUB_TOKEN=secret\<close>, \<^verbatim>\<open>new GithubStats('foo', 'bar', '')\<close> does not
  hold the empty credential it was given.
\<close>

theorem explicit_empty_token_counterexample:
  "token (new_GithubStats \<lparr>self_defined = False, GITHUB_TOKEN = Some ''secret''\<rparr> ''foo'' ''bar'' (Some ''''))
   \<noteq> ''''"
  by (simp add: new_GithubStats_def truthy_def)

text \<open>
  Claim C10. Outside a browser-like host, a client constructed with an explicit empty
  token holds the token of the environment, and the empty credential when the
  environment has none: passing the empty string does not force requests without
  authentication.
\<close>

theorem empty_token_falls_back:
  assumes "\<not> self_defined e"
  shows "token (new_GithubStats e owner name (Some '''')) =
         (case GITHUB_TOKEN e of None \<Rightarrow> '''' | Some g \<Rightarrow> g)"
  using assms by (auto simp: new_GithubStats_def truthy_def split: option.splits)

theorem empty_token_falls_back_witness:
  "\<not> self_defined \<lparr>self_defined = False, GITHUB_TOKEN = Some ''secret''\<rparr>
   \<and> token (new_GithubStats \<lparr>self_defined = False, GITHUB_TOKEN = Some ''secret''\<rparr> ''foo'' ''bar'' (Some ''''))
     = ''secret''"
  using empty_token_falls_back [of "\<lparr>self_defined = False, GITHUB_TOKEN = Some ''secret''\<rparr>" "''foo''" "''bar''"]
  by simp

end
